theory Spec2Isabelle
  imports Complex_Main "HOL-Library.AList"
begin

section \<open>The OrcaHand controller (orca\_core/core.py)\<close>

text \<open>
  A shallow embedding of the coordinate transform, the calibration bookkeeping and the
  configuration check of class \<open>OrcaHand\<close>.

  Conventions of the embedding:
  \<^item> Python floats and numpy float64 values are exact reals. Rounding is not modelled; the
    one place where numpy leaves the finite numbers (a division by a zero ratio, which
    yields \<open>inf\<close> or \<open>nan\<close> with a warning and no exception) is kept as the value
    \<open>NonFinite\<close>.
  \<^item> A Python \<open>dict\<close> is an association list in insertion order (keys are distinct in
    every dict Python can build); lookup is \<open>map_of\<close>, item assignment is
    \<open>AList.update\<close>, which overwrites in place or appends.
  \<^item> A two-element list \<open>[min, max]\<close> of the YAML files is a pair; \<open>None\<close> is
    \<open>None\<close>.
  \<^item> Every \<open>raise\<close>, failed lookup, failed index and failed \<open>assert\<close> is a value
    \<open>Inl e\<close>.
\<close>

subsection \<open>Data\<close>

type_synonym ('k, 'v) dict = "('k \<times> 'v) list"

text \<open>
  The exceptions the modelled code can raise. The \<open>ValueError\<close>s of the source differ
  only in their message; each message is one constructor, with the values the f-string
  interpolates.
\<close>

datatype error =
    CountMismatch \<comment> \<open>ValueError: Number of motor IDs and joints do not match.\<close>
  | InvalidControlMode \<comment> \<open>ValueError: Invalid control mode.\<close>
  | MaxCurrentTooLow \<comment> \<open>ValueError: Max current should be greater than the calibration current.\<close>
  | JointNotDefined string \<comment> \<open>ValueError: Joint j is not defined.\<close>
  | RomNotDefined string \<comment> \<open>ValueError: ROM for joint j is not defined.\<close>
  | MotorIdNotInList int \<comment> \<open>ValueError: Motor ID m is not in the motor IDs list.\<close>
  | RomNotValid string \<comment> \<open>ValueError: ROM for joint j is not valid.\<close>
  | RomJointNotDefined string \<comment> \<open>ValueError: Joint j in ROMs is not defined.\<close>
  | InvalidDirection string \<comment> \<open>ValueError: Invalid direction for joint j.\<close>
  | NotCalibrated int string \<comment> \<open>ValueError: Motor m corresponding to joint j is not calibrated.\<close>
  | KeyErrorMotor int \<comment> \<open>KeyError on a dict keyed by motor id\<close>
  | KeyErrorJoint "string option" \<comment> \<open>KeyError on a dict keyed by joint name (the key may be None)\<close>
  | IndexError \<comment> \<open>IndexError of a numpy array or a deque\<close>
  | AssertionError \<comment> \<open>a failed assert\<close>
  | BroadcastError \<comment> \<open>ValueError of numpy: operands could not be broadcast together\<close>
  | ZeroDivisionError \<comment> \<open>division of Python floats by zero\<close>
  | UFuncTypeError \<comment> \<open>numpy: cannot cast the float64 output of add to int64\<close>

text \<open>A numpy float64 result: a finite number, or \<open>inf\<close>/\<open>nan\<close>.\<close>

datatype npfloat = Fin real | NonFinite

text \<open>The attributes of \<open>OrcaHand\<close> that the modelled methods read or write.\<close>

record orca_hand =
  motor_ids :: "int list"
  joint_ids :: "string list"
  joint_to_motor_map :: "(string, int) dict"
  joint_roms :: "(string, real \<times> real) dict"
  motor_limits :: "(int, real option \<times> real option) dict"
  joint_to_motor_ratios :: "(int, real) dict"
  calibrated :: bool
  control_mode :: string
  max_current :: int
  calib_current :: int
  calib_step_size :: real
  calib_threshold :: real
  calib_num_stable :: nat
  calib_sequence :: "(string, string) dict list"

text \<open>
  \<open>self.motor_to_joint_map = {v: k for k, v in self.joint_to_motor_map.items()}\<close>:
  a later item overwrites an earlier one with the same motor id. The attribute is only
  ever looked up, so it is modelled as the lookup function.
\<close>

definition motor_to_joint_map :: "orca_hand \<Rightarrow> int \<Rightarrow> string option" where
  "motor_to_joint_map h = map_of (rev (map (\<lambda>(k, v). (v, k)) (joint_to_motor_map h)))"

subsection \<open>numpy indexing\<close>

text \<open>
  \<open>a[i]\<close> on a one-dimensional array of length \<open>n\<close>: indices \<open>0 .. n-1\<close> address
  from the front, \<open>-n .. -1\<close> from the back, anything else raises IndexError.
\<close>

definition np_slot :: "nat \<Rightarrow> int \<Rightarrow> nat option" where
  "np_slot n i =
     (if 0 \<le> i \<and> i < int n then Some (nat i)
      else if - int n \<le> i \<and> i < 0 then Some (nat (int n + i))
      else None)"

definition np_get :: "real list \<Rightarrow> int \<Rightarrow> error + real" where
  "np_get xs i = (case np_slot (length xs) i of None \<Rightarrow> Inl IndexError | Some k \<Rightarrow> Inr (xs ! k))"

definition np_set :: "real list \<Rightarrow> int \<Rightarrow> real \<Rightarrow> error + real list" where
  "np_set xs i v =
     (case np_slot (length xs) i of None \<Rightarrow> Inl IndexError | Some k \<Rightarrow> Inr (xs[k := v]))"

subsection \<open>The coordinate transform\<close>

text \<open>
  One iteration of the loop of \<open>_motor_to_joint_pos\<close>, for the motor id \<open>motor_id\<close>
  that \<open>enumerate(motor_pos, start=1)\<close> pairs with the position \<open>pos\<close>. The
  subscripts are evaluated in the order of the source line:
  \<open>motor_limits[motor_id]\<close>, then \<open>joint_roms[joint_name]\<close>, then
  \<open>joint_to_motor_ratios[motor_id]\<close>.
\<close>

definition motor_to_joint_entry ::
  "orca_hand \<Rightarrow> int \<Rightarrow> real \<Rightarrow> error + (string option \<times> npfloat option)" where
  "motor_to_joint_entry h motor_id pos =
     (let joint_name = motor_to_joint_map h motor_id in
      case map_of (motor_limits h) motor_id of
        None \<Rightarrow> Inl (KeyErrorMotor motor_id)
      | Some (lo, hi) \<Rightarrow>
          if lo = None \<or> hi = None then Inr (joint_name, None)
          else
            (case (case joint_name of None \<Rightarrow> None | Some j \<Rightarrow> map_of (joint_roms h) j) of
               None \<Rightarrow> Inl (KeyErrorJoint joint_name)
             | Some (rom_min, rom_max) \<Rightarrow>
                 (case map_of (joint_to_motor_ratios h) motor_id of
                    None \<Rightarrow> Inl (KeyErrorMotor motor_id)
                  | Some ratio \<Rightarrow>
                      Inr (joint_name,
                           Some (if ratio = 0 then NonFinite
                                 else Fin (rom_min + (pos - the lo) / ratio))))))"

fun m2j_loop ::
  "orca_hand \<Rightarrow> int \<Rightarrow> real list \<Rightarrow> (string option, npfloat option) dict
     \<Rightarrow> error + (string option, npfloat option) dict" where
  "m2j_loop h motor_id [] joint_pos = Inr joint_pos"
| "m2j_loop h motor_id (pos # rest) joint_pos =
     (case motor_to_joint_entry h motor_id pos of
        Inl e \<Rightarrow> Inl e
      | Inr (joint_name, v) \<Rightarrow>
          m2j_loop h (motor_id + 1) rest (AList.update joint_name v joint_pos))"

definition motor_to_joint_pos ::
  "orca_hand \<Rightarrow> real list \<Rightarrow> error + (string option, npfloat option) dict" where
  "motor_to_joint_pos h motor_pos = m2j_loop h 1 motor_pos []"

text \<open>
  The loop of \<open>_joint_to_motor_pos\<close> over \<open>joint_pos.items()\<close>; \<open>motor_pos\<close> is the
  array being overwritten. The right-hand side of the assignment is evaluated before
  the store, so a failed lookup precedes a failed index.
\<close>

fun j2m_loop :: "orca_hand \<Rightarrow> (string, real) dict \<Rightarrow> real list \<Rightarrow> error + real list" where
  "j2m_loop h [] motor_pos = Inr motor_pos"
| "j2m_loop h ((joint_name, pos) # rest) motor_pos =
     (case map_of (joint_to_motor_map h) joint_name of
        None \<Rightarrow> j2m_loop h rest motor_pos
      | Some motor_id \<Rightarrow>
          (case map_of (motor_limits h) motor_id of
             None \<Rightarrow> Inl (KeyErrorMotor motor_id)
           | Some (lo, hi) \<Rightarrow>
               if lo = None \<or> hi = None then Inl (NotCalibrated motor_id joint_name)
               else
                 (case map_of (joint_roms h) joint_name of
                    None \<Rightarrow> Inl (KeyErrorJoint (Some joint_name))
                  | Some (rom_min, rom_max) \<Rightarrow>
                      (case map_of (joint_to_motor_ratios h) motor_id of
                         None \<Rightarrow> Inl (KeyErrorMotor motor_id)
                       | Some ratio \<Rightarrow>
                           (case np_set motor_pos (motor_id - 1)
                                   (the lo + (pos - rom_min) * ratio) of
                              Inl e \<Rightarrow> Inl e
                            | Inr motor_pos' \<Rightarrow> j2m_loop h rest motor_pos')))))"

subsection \<open>The motor transport and the calibration file\<close>

text \<open>
  Modelled from the spec: the motor transport (\<open>hardware/dynamixel_client\<close>, class
  \<open>DynamixelClient\<close>) is not among the sources. The spec gives its interface:
  \<open>read_pos_vel_cur()\<close> returns sequences aligned to the order of \<open>motor_ids\<close>, and
  \<open>write_desired_pos(motor_ids, positions)\<close> commands positions. The transport is a
  connected client; it holds the positions the next read returns and the log of the
  position writes issued so far, oldest first. A read returns a fresh array.
\<close>

record transport =
  positions :: "real list"
  pos_writes :: "(int list \<times> real list) list"

definition write_desired_pos :: "transport \<Rightarrow> int list \<Rightarrow> real list \<Rightarrow> transport" where
  "write_desired_pos t ids ps = t\<lparr>pos_writes := pos_writes t @ [(ids, ps)]\<rparr>"

text \<open>
  Modelled from the spec: \<open>utils/yaml_utils\<close> (\<open>read_yaml\<close>, \<open>update_yaml\<close>) is not
  among the sources. The spec gives \<open>update_key(path, key, value)\<close> as a single-key
  upsert that preserves the other keys. The calibration file is its key-value mapping.
\<close>

datatype yaml_value =
    YBool bool
  | YLimits "(int, real option \<times> real option) dict"
  | YRatios "(int, real) dict"

type_synonym calib_file = "(string, yaml_value) dict"

definition update_yaml :: "calib_file \<Rightarrow> string \<Rightarrow> yaml_value \<Rightarrow> calib_file" where
  "update_yaml f key v = AList.update key v f"

subsection \<open>Reading and commanding positions\<close>

definition get_motor_pos :: "transport \<Rightarrow> real list" where
  "get_motor_pos t = positions t"

definition joint_to_motor_pos ::
  "orca_hand \<Rightarrow> (string, real) dict \<Rightarrow> transport \<Rightarrow> error + real list" where
  "joint_to_motor_pos h joint_pos t = j2m_loop h joint_pos (get_motor_pos t)"

definition get_joint_pos ::
  "orca_hand \<Rightarrow> transport \<Rightarrow> error + (string option, npfloat option) dict" where
  "get_joint_pos h t = motor_to_joint_pos h (get_motor_pos t)"

text \<open>The three argument types \<open>_set_motor_pos\<close> accepts.\<close>

datatype desired = DDict "(int, real) dict" | DArray "real list" | DList "real list"

text \<open>
  The list comprehension of the dict branch,
  \<open>[desired_pos.get(motor_id, 0 if rel_to_current else current_pos[motor_id - 1])
     for motor_id in self.motor_ids]\<close>.
  Python evaluates the default argument of \<open>get\<close> before the call, so the subscript is
  taken, and can fail, also for a motor id the dict holds.
\<close>

fun dict_targets :: "(int, real) dict \<Rightarrow> bool \<Rightarrow> real list \<Rightarrow> int list \<Rightarrow> error + real list" where
  "dict_targets desired_pos rel_to_current current_pos [] = Inr []"
| "dict_targets desired_pos rel_to_current current_pos (motor_id # ids) =
     (case (if rel_to_current then Inr 0 else np_get current_pos (motor_id - 1)) of
        Inl e \<Rightarrow> Inl e
      | Inr dflt \<Rightarrow>
          (case dict_targets desired_pos rel_to_current current_pos ids of
             Inl e \<Rightarrow> Inl e
           | Inr r \<Rightarrow> Inr ((case map_of desired_pos motor_id of None \<Rightarrow> dflt | Some v \<Rightarrow> v) # r)))"

text \<open>
  \<open>motor_pos_array += current_pos\<close> on one-dimensional arrays: equal lengths add
  elementwise, a right operand of length one is broadcast, anything else raises.
\<close>

definition np_iadd :: "real list \<Rightarrow> real list \<Rightarrow> error + real list" where
  "np_iadd a b =
     (if length b = length a then Inr (map2 (+) a b)
      else if length b = 1 then Inr (map (\<lambda>x. x + hd b) a)
      else Inl BroadcastError)"

text \<open>
  The values of a dict and the elements of a list passed to \<open>_set_motor_pos\<close> are
  floats, and so are the positions the transport reports. With \<open>rel_to_current\<close> the
  default of the dict branch is the integer literal \<open>0\<close>: when no declared motor id is a
  key of the dict, \<open>np.array\<close> builds an int64 array (float64 for the empty list), and
  adding float positions to it in place raises. numpy checks the cast before it
  broadcasts.
\<close>

definition int_array :: "orca_hand \<Rightarrow> desired \<Rightarrow> bool \<Rightarrow> bool" where
  "int_array h desired_pos rel_to_current =
     (case desired_pos of
        DDict d \<Rightarrow>
          rel_to_current \<and> motor_ids h \<noteq> [] \<and>
          list_all (\<lambda>motor_id. map_of d motor_id = None) (motor_ids h)
      | DArray a \<Rightarrow> False
      | DList l \<Rightarrow> False)"

text \<open>
  \<open>_set_motor_pos\<close>. The result is the exception raised, if any, and the transport
  afterwards; the write is the last statement, so a raise leaves the transport as it was.
\<close>

definition set_motor_pos ::
  "orca_hand \<Rightarrow> desired \<Rightarrow> bool \<Rightarrow> transport \<Rightarrow> error option \<times> transport" where
  "set_motor_pos h desired_pos rel_to_current t =
     (let current_pos = get_motor_pos t in
      case (case desired_pos of
              DDict d \<Rightarrow> dict_targets d rel_to_current current_pos (motor_ids h)
            | DArray a \<Rightarrow>
                if length a = length (motor_ids h) then Inr a else Inl AssertionError
            | DList l \<Rightarrow>
                if length l = length (motor_ids h) then Inr l else Inl AssertionError) of
        Inl e \<Rightarrow> (Some e, t)
      | Inr motor_pos_array \<Rightarrow>
          (case (if rel_to_current
                 then (if int_array h desired_pos rel_to_current then Inl UFuncTypeError
                       else np_iadd motor_pos_array current_pos)
                 else Inr motor_pos_array) of
             Inl e \<Rightarrow> (Some e, t)
           | Inr motor_pos_array' \<Rightarrow>
               (None, write_desired_pos t (motor_ids h) motor_pos_array')))"

text \<open>
  \<open>set_joint_pos\<close>; the argument is a dict by its type, so the \<open>isinstance\<close> check
  passes.
\<close>

definition set_joint_pos ::
  "orca_hand \<Rightarrow> (string, real) dict \<Rightarrow> transport \<Rightarrow> error option \<times> transport" where
  "set_joint_pos h joint_pos t =
     (case joint_to_motor_pos h joint_pos t of
        Inl e \<Rightarrow> (Some e, t)
      | Inr motor_pos \<Rightarrow> set_motor_pos h (DArray motor_pos) False t)"

subsection \<open>Calibration status and the configuration check\<close>

fun any_limit_none :: "real option \<times> real option \<Rightarrow> bool" where
  "any_limit_none (lo, hi) = (lo = None \<or> hi = None)"

fun is_calibrated_loop :: "(real option \<times> real option) list \<Rightarrow> bool" where
  "is_calibrated_loop [] = True"
| "is_calibrated_loop (motor_limit # rest) =
     (if any_limit_none motor_limit then False else is_calibrated_loop rest)"

definition is_calibrated :: "orca_hand \<Rightarrow> bool" where
  "is_calibrated h = is_calibrated_loop (map snd (motor_limits h))"

text \<open>The loops of \<open>_sanity_check\<close>, each returning the first exception raised.\<close>

fun check_map_items :: "orca_hand \<Rightarrow> (string, int) dict \<Rightarrow> error option" where
  "check_map_items h [] = None"
| "check_map_items h ((joint, motor_id) # rest) =
     (if joint \<notin> set (joint_ids h) then Some (JointNotDefined joint)
      else if map_of (joint_roms h) joint = None then Some (RomNotDefined joint)
      else if motor_id \<notin> set (motor_ids h) then Some (MotorIdNotInList motor_id)
      else check_map_items h rest)"

fun check_roms :: "orca_hand \<Rightarrow> (string, real \<times> real) dict \<Rightarrow> error option" where
  "check_roms h [] = None"
| "check_roms h ((joint, (rom0, rom1)) # rest) =
     (if rom1 - rom0 \<le> 0 then Some (RomNotValid joint)
      else if joint \<notin> set (joint_ids h) then Some (RomJointNotDefined joint)
      else check_roms h rest)"

fun check_step :: "orca_hand \<Rightarrow> (string, string) dict \<Rightarrow> error option" where
  "check_step h [] = None"
| "check_step h ((joint, direction) # rest) =
     (if joint \<notin> set (joint_ids h) then Some (JointNotDefined joint)
      else if direction \<notin> set [''flex'', ''extend''] then Some (InvalidDirection joint)
      else check_step h rest)"

fun check_sequence :: "orca_hand \<Rightarrow> (string, string) dict list \<Rightarrow> error option" where
  "check_sequence h [] = None"
| "check_sequence h (step # rest) =
     (case check_step h step of Some e \<Rightarrow> Some e | None \<Rightarrow> check_sequence h rest)"

text \<open>
  The last loop of \<open>_sanity_check\<close>: every incomplete limit pair sets
  \<open>self.calibrated = False\<close> and writes the key \<open>calibrated\<close> of the calibration file.
\<close>

fun clear_calibrated ::
  "(real option \<times> real option) list \<Rightarrow> orca_hand \<times> calib_file \<Rightarrow> orca_hand \<times> calib_file" where
  "clear_calibrated [] hf = hf"
| "clear_calibrated (motor_limit # rest) (h, f) =
     (if any_limit_none motor_limit
      then clear_calibrated rest (h\<lparr>calibrated := False\<rparr>, update_yaml f ''calibrated'' (YBool False))
      else clear_calibrated rest (h, f))"

definition sanity_check :: "orca_hand \<Rightarrow> calib_file \<Rightarrow> error + (orca_hand \<times> calib_file)" where
  "sanity_check h f =
     (if length (motor_ids h) \<noteq> length (joint_ids h) then Inl CountMismatch
      else if length (motor_ids h) \<noteq> length (joint_to_motor_map h) then Inl CountMismatch
      else if control_mode h \<notin> set [''current_position'', ''current_velocity'', ''position'',
                                      ''multi_turn_position'', ''current_based_position'']
        then Inl InvalidControlMode
      else if max_current h < calib_current h then Inl MaxCurrentTooLow
      else
        (case check_map_items h (joint_to_motor_map h) of
           Some e \<Rightarrow> Inl e
         | None \<Rightarrow>
             (case check_roms h (joint_roms h) of
                Some e \<Rightarrow> Inl e
              | None \<Rightarrow>
                  (case check_sequence h (calib_sequence h) of
                     Some e \<Rightarrow> Inl e
                   | None \<Rightarrow> Inr (clear_calibrated (map snd (motor_limits h)) (h, f))))))"

subsection \<open>Automatic calibration\<close>

text \<open>
  \<open>calibrate\<close> drives the motors through the transport and sleeps between samples; what
  the motors then report is not determined by the program. The embedding covers the
  bookkeeping of one pass of its loops, with the sampled position vector \<open>curr_pos\<close> as
  an argument: the set-up of a step, the stability test on a sample, the recording of a
  limit, and the ratio computation that ends a step. The position and current logs are
  written and never read, and are left out.
\<close>

text \<open>\<open>motor_limits = {motor_id: [None, None] for motor_id in self.motor_ids}\<close>\<close>

definition init_limits :: "int list \<Rightarrow> (int, real option \<times> real option) dict" where
  "init_limits ids = foldl (\<lambda>d motor_id. AList.update motor_id (None, None) d) [] ids"

text \<open>The dicts local to one step of the calibration sequence.\<close>

record step_state =
  desired_increment :: "(int, real) dict"
  motor_reached_limit :: "(int, bool) dict"
  directions :: "(int, int) dict"
  position_buffers :: "(int, real list) dict"
  new_limits :: "(int, real option \<times> real option) dict"

text \<open>
  The first loop of a step, over \<open>step["joints"].items()\<close>; \<open>new_limits\<close> is the local
  \<open>motor_limits\<close>, carried over from the steps before.
\<close>

fun init_step :: "orca_hand \<Rightarrow> (string, string) dict \<Rightarrow> step_state \<Rightarrow> error + step_state" where
  "init_step h [] st = Inr st"
| "init_step h ((joint, direction) # rest) st =
     (case map_of (joint_to_motor_map h) joint of
        None \<Rightarrow> Inl (KeyErrorJoint (Some joint))
      | Some motor_id \<Rightarrow>
          init_step h rest
            (st\<lparr>directions :=
                   AList.update motor_id (if direction = ''flex'' then 1 else - 1) (directions st),
                 position_buffers := AList.update motor_id [] (position_buffers st),
                 motor_reached_limit := AList.update motor_id False (motor_reached_limit st)\<rparr>))"

text \<open>
  The loop that opens a pass of the \<open>while\<close>, over \<open>motor_reached_limit.items()\<close>:
  a motor that has not reached its limit gets the increment
  \<open>directions[motor_id] * self.calib_step_size\<close>; the entry of a motor that has is left
  as it is.
\<close>

fun increment_loop :: "orca_hand \<Rightarrow> (int, bool) dict \<Rightarrow> step_state \<Rightarrow> error + step_state" where
  "increment_loop h [] st = Inr st"
| "increment_loop h ((motor_id, reached_limit) # rest) st =
     (if reached_limit then increment_loop h rest st
      else
        (case map_of (directions st) motor_id of
           None \<Rightarrow> Inl (KeyErrorMotor motor_id)
         | Some direction \<Rightarrow>
             increment_loop h rest
               (st\<lparr>desired_increment :=
                      AList.update motor_id (real_of_int direction * calib_step_size h)
                        (desired_increment st)\<rparr>)))"

text \<open>\<open>append\<close> on a \<open>deque(maxlen=n)\<close>: a full deque drops its oldest element.\<close>

definition deque_append :: "nat \<Rightarrow> real list \<Rightarrow> real \<Rightarrow> real list" where
  "deque_append maxlen buf x = (let b = buf @ [x] in if length b > maxlen then tl b else b)"

text \<open>
  \<open>numpy.allclose(a, b, rtol, atol)\<close> for a sequence \<open>a\<close> and a scalar \<open>b\<close> of finite
  numbers: every element satisfies \<open>|a_i - b| \<le> atol + rtol * |b|\<close>. The call in
  \<open>calibrate\<close> passes \<open>atol\<close> only, so \<open>rtol\<close> has numpy's default, \<open>1e-05\<close>.
\<close>

definition np_allclose :: "real list \<Rightarrow> real \<Rightarrow> real \<Rightarrow> real \<Rightarrow> bool" where
  "np_allclose a b rtol atol = list_all (\<lambda>x. \<bar>x - b\<bar> \<le> atol + rtol * \<bar>b\<bar>) a"

definition default_rtol :: real where
  "default_rtol = 1 / 100000"

definition np_mean :: "real list \<Rightarrow> real" where
  "np_mean xs = sum_list xs / real (length xs)"

text \<open>
  The condition
  \<open>len(position_buffers[motor_id]) == self.calib_num_stable and
     np.allclose(position_buffers[motor_id], position_buffers[motor_id][0], atol=self.calib_threshold)\<close>;
  the subscript \<open>[0]\<close> raises on an empty deque.
\<close>

definition limit_reached :: "nat \<Rightarrow> real \<Rightarrow> real list \<Rightarrow> error + bool" where
  "limit_reached num_stable threshold buf =
     (if length buf = num_stable
      then (case buf of
              [] \<Rightarrow> Inl IndexError
            | first # _ \<Rightarrow> Inr (np_allclose buf first default_rtol threshold))
      else Inr False)"

text \<open>
  The assignments \<open>motor_limits[motor_id][1] = avg_limit\<close> (direction 1) and
  \<open>motor_limits[motor_id][0] = avg_limit\<close> (direction -1).
\<close>

definition record_limit ::
  "int \<Rightarrow> int \<Rightarrow> real \<Rightarrow> (int, real option \<times> real option) dict
     \<Rightarrow> error + (int, real option \<times> real option) dict" where
  "record_limit motor_id direction avg_limit limits =
     (case (if direction = 1
            then (case map_of limits motor_id of
                    None \<Rightarrow> Inl (KeyErrorMotor motor_id)
                  | Some (lo, hi) \<Rightarrow> Inr (AList.update motor_id (lo, Some avg_limit) limits))
            else Inr limits) of
        Inl e \<Rightarrow> Inl e
      | Inr limits' \<Rightarrow>
          if direction = - 1
          then (case map_of limits' motor_id of
                  None \<Rightarrow> Inl (KeyErrorMotor motor_id)
                | Some (lo, hi) \<Rightarrow> Inr (AList.update motor_id (Some avg_limit, hi) limits'))
          else Inr limits')"

text \<open>
  The body of the sampling loop \<open>for motor_id in desired_increment.keys()\<close> for one
  motor id. The notice printed when a limit is reached reads
  \<open>self.motor_to_joint_map[motor_id]\<close>, which raises for a motor without a joint.
\<close>

definition sample_motor :: "orca_hand \<Rightarrow> real list \<Rightarrow> int \<Rightarrow> step_state \<Rightarrow> error + step_state" where
  "sample_motor h curr_pos motor_id st =
     (case map_of (motor_reached_limit st) motor_id of
        None \<Rightarrow> Inl (KeyErrorMotor motor_id)
      | Some reached \<Rightarrow>
          if reached then Inr st
          else
            (case map_of (position_buffers st) motor_id of
               None \<Rightarrow> Inl (KeyErrorMotor motor_id)
             | Some buf \<Rightarrow>
                 (case np_get curr_pos (motor_id - 1) of
                    Inl e \<Rightarrow> Inl e
                  | Inr x \<Rightarrow>
                      (let buf' = deque_append (calib_num_stable h) buf x;
                           st1 = st\<lparr>position_buffers :=
                                      AList.update motor_id buf' (position_buffers st)\<rparr>
                       in case limit_reached (calib_num_stable h) (calib_threshold h) buf' of
                            Inl e \<Rightarrow> Inl e
                          | Inr False \<Rightarrow> Inr st1
                          | Inr True \<Rightarrow>
                              (case motor_to_joint_map h motor_id of
                                 None \<Rightarrow> Inl (KeyErrorMotor motor_id)
                               | Some joint \<Rightarrow>
                                   (case map_of (directions st1) motor_id of
                                      None \<Rightarrow> Inl (KeyErrorMotor motor_id)
                                    | Some direction \<Rightarrow>
                                        (case record_limit motor_id direction (np_mean buf')
                                                (new_limits st1) of
                                           Inl e \<Rightarrow> Inl e
                                         | Inr limits' \<Rightarrow>
                                             Inr (st1\<lparr>motor_reached_limit :=
                                                        AList.update motor_id True
                                                          (motor_reached_limit st1),
                                                      new_limits := limits'\<rparr>))))))))"

fun sample_loop :: "orca_hand \<Rightarrow> real list \<Rightarrow> int list \<Rightarrow> step_state \<Rightarrow> error + step_state" where
  "sample_loop h curr_pos [] st = Inr st"
| "sample_loop h curr_pos (motor_id # ids) st =
     (case sample_motor h curr_pos motor_id st of
        Inl e \<Rightarrow> Inl e
      | Inr st' \<Rightarrow> sample_loop h curr_pos ids st')"

text \<open>
  The loop that ends a step, \<open>for motor_id, limits in motor_limits.items()\<close>: the ratio
  of every motor with both limits, and the joints to be set to zero. The operands of the
  division are Python floats.
\<close>

fun ratio_loop ::
  "orca_hand \<Rightarrow> (int, real option \<times> real option) dict \<Rightarrow> (int, real) dict \<times> (string, real) dict
     \<Rightarrow> error + ((int, real) dict \<times> (string, real) dict)" where
  "ratio_loop h [] acc = Inr acc"
| "ratio_loop h ((motor_id, (lo, hi)) # rest) (ratios, calibrated_joints) =
     (if lo = None \<or> hi = None then ratio_loop h rest (ratios, calibrated_joints)
      else
        (case motor_to_joint_map h motor_id of
           None \<Rightarrow> Inl (KeyErrorMotor motor_id)
         | Some joint \<Rightarrow>
             (case map_of (joint_roms h) joint of
                None \<Rightarrow> Inl (KeyErrorJoint (Some joint))
              | Some (rom0, rom1) \<Rightarrow>
                  (let delta_motor = the hi - the lo; delta_joint = rom1 - rom0
                   in if delta_joint = 0 then Inl ZeroDivisionError
                      else ratio_loop h rest
                             (AList.update motor_id (delta_motor / delta_joint) ratios,
                              AList.update joint 0 calibrated_joints)))))"

subsection \<open>Vocabulary of the properties\<close>

text \<open>
  A mentioned joint is uncalibrated when it is declared and the limit pair of its motor
  has an undefined bound.
\<close>

definition uncalibrated_joint :: "orca_hand \<Rightarrow> string \<Rightarrow> bool" where
  "uncalibrated_joint h joint_name =
     (case map_of (joint_to_motor_map h) joint_name of
        None \<Rightarrow> False
      | Some motor_id \<Rightarrow>
          (case map_of (motor_limits h) motor_id of
             None \<Rightarrow> False
           | Some motor_limit \<Rightarrow> any_limit_none motor_limit))"

text \<open>
  The tables cover a joint, for a position vector of length \<open>n\<close>, when
  \<open>_joint_to_motor_pos\<close> meets no failed lookup and no failed index on it: the joint is
  undeclared (and skipped), or its motor has a limit pair and, where both bounds are
  defined, the joint has a ROM, the motor a ratio, and slot \<open>motor_id - 1\<close> exists.
\<close>

definition tables_cover :: "orca_hand \<Rightarrow> nat \<Rightarrow> string \<Rightarrow> bool" where
  "tables_cover h n joint_name =
     (case map_of (joint_to_motor_map h) joint_name of
        None \<Rightarrow> True
      | Some motor_id \<Rightarrow>
          (case map_of (motor_limits h) motor_id of
             None \<Rightarrow> False
           | Some motor_limit \<Rightarrow>
               any_limit_none motor_limit \<or>
               (map_of (joint_roms h) joint_name \<noteq> None \<and>
                map_of (joint_to_motor_ratios h) motor_id \<noteq> None \<and>
                np_slot n (motor_id - 1) \<noteq> None)))"

text \<open>
  A joint is calibrated, for a position vector of length \<open>n\<close>, when it is declared, its
  motor id lies in \<open>1 .. n\<close>, both limits of the motor are defined, the joint has a ROM
  and the motor a ratio other than zero.
\<close>

definition calibrated_joint :: "orca_hand \<Rightarrow> nat \<Rightarrow> string \<Rightarrow> bool" where
  "calibrated_joint h n joint_name =
     (case map_of (joint_to_motor_map h) joint_name of
        None \<Rightarrow> False
      | Some motor_id \<Rightarrow>
          1 \<le> motor_id \<and> motor_id \<le> int n \<and>
          (case map_of (motor_limits h) motor_id of
             None \<Rightarrow> False
           | Some (lo, hi) \<Rightarrow>
               lo \<noteq> None \<and> hi \<noteq> None \<and> map_of (joint_roms h) joint_name \<noteq> None \<and>
               (case map_of (joint_to_motor_ratios h) motor_id of
                  None \<Rightarrow> False
                | Some ratio \<Rightarrow> ratio \<noteq> 0)))"

text \<open>
  \<open>_motor_to_joint_pos\<close> meets no failed lookup on a covered motor: it has a limit pair
  and, where both bounds are defined, a joint with a ROM and a ratio.
\<close>

definition motor_covered :: "orca_hand \<Rightarrow> int \<Rightarrow> bool" where
  "motor_covered h motor_id =
     (case map_of (motor_limits h) motor_id of
        None \<Rightarrow> False
      | Some motor_limit \<Rightarrow>
          any_limit_none motor_limit \<or>
          ((case motor_to_joint_map h motor_id of
              None \<Rightarrow> False
            | Some joint_name \<Rightarrow> map_of (joint_roms h) joint_name \<noteq> None) \<and>
           map_of (joint_to_motor_ratios h) motor_id \<noteq> None))"




subsection \<open>Example configurations\<close>

text \<open>
  A hand with two motors. The thumb is calibrated with motor limits \<open>[-1.0, 1.0]\<close>, ROM
  \<open>[0.0, 1.57]\<close> and ratio \<open>2.0 / 1.57\<close>; the index finger has no lower limit yet.
\<close>

definition hand2 :: orca_hand where
  "hand2 = \<lparr>motor_ids = [1, 2], joint_ids = [''thumb'', ''index''],
     joint_to_motor_map = [(''thumb'', 1), (''index'', 2)],
     joint_roms = [(''thumb'', (0, 157 / 100)), (''index'', (0, 1))],
     motor_limits = [(1, (Some (- 1), Some 1)), (2, (None, Some 1))],
     joint_to_motor_ratios = [(1, 200 / 157)],
     calibrated = True, control_mode = ''current_based_position'',
     max_current = 300, calib_current = 200, calib_step_size = 1 / 10,
     calib_threshold = 1 / 100, calib_num_stable = 5,
     calib_sequence = [[(''thumb'', ''flex'')], [(''thumb'', ''extend'')]]\<rparr>"

definition transport2 :: transport where
  "transport2 = \<lparr>positions = [3 / 10, 4 / 10], pos_writes = []\<rparr>"

text \<open>The same hand with an empty ratio table.\<close>

definition hand2_no_ratio :: orca_hand where
  "hand2_no_ratio = hand2\<lparr>joint_to_motor_ratios := []\<rparr>"

text \<open>
  \<open>hand2\<close> with a limit table that holds the thumb's motor only, and \<open>hand2\<close> as a
  calibration file without the keys \<open>motor_limits\<close> and \<open>joint_to_motor_ratios\<close> leaves
  it: both tables are the default \<open>{}\<close>, and the persisted flag is true.
\<close>

definition hand2_one_limit :: orca_hand where
  "hand2_one_limit = hand2\<lparr>motor_limits := [(1, (Some (- 1), Some 1))]\<rparr>"

definition hand_fresh :: orca_hand where
  "hand_fresh = hand2\<lparr>motor_limits := [], joint_to_motor_ratios := []\<rparr>"

text \<open>
  \<open>hand2\<close> with a thumb whose two limits coincide, and the ratio calibrate computes from
  them, \<open>(1 - 1) / (1.57 - 0) = 0\<close>.
\<close>

definition hand_degenerate :: orca_hand where
  "hand_degenerate = hand2\<lparr>motor_limits := [(1, (Some 1, Some 1)), (2, (None, Some 1))],
     joint_to_motor_ratios := [(1, 0)]\<rparr>"

text \<open>
  \<open>hand2\<close> with both joints on motor 1, and \<open>hand2\<close> with the index finger on a motor
  id that is not declared.
\<close>

definition hand_shared_motor :: orca_hand where
  "hand_shared_motor = hand2\<lparr>joint_to_motor_map := [(''thumb'', 1), (''index'', 1)]\<rparr>"

definition hand_undeclared_motor :: orca_hand where
  "hand_undeclared_motor = hand2\<lparr>joint_to_motor_map := [(''thumb'', 1), (''index'', 3)]\<rparr>"

text \<open>
  The dicts of a calibration step that flexes the thumb of \<open>hand2\<close>, with the thumb's
  stability buffer holding \<open>buf\<close>.
\<close>

definition step_thumb_flex :: "real list \<Rightarrow> step_state" where
  "step_thumb_flex buf =
     \<lparr>desired_increment = [(1, 1 / 10)], motor_reached_limit = [(1, False)],
      directions = [(1, 1)], position_buffers = [(1, buf)],
      new_limits = [(1, (None, None)), (2, (None, None))]\<rparr>"

section \<open>Properties\<close>

subsection \<open>Array stores and the conversion loops\<close>

lemma np_set_length: "np_set xs i v = Inr ys \<Longrightarrow> length ys = length xs"
  by (auto simp: np_set_def split: option.splits)

lemma np_slot_less: "np_slot n i = Some k \<Longrightarrow> k < n"
  by (auto simp: np_slot_def split: if_splits)

lemma np_set_nth:
  "np_set xs i v = Inr ys \<Longrightarrow> np_slot (length xs) i = Some k \<Longrightarrow> ys ! k = v"
  by (auto simp: np_set_def dest: np_slot_less split: option.splits)

lemma np_set_other:
  "np_set xs i v = Inr ys \<Longrightarrow> np_slot (length xs) i \<noteq> Some k \<Longrightarrow> ys ! k = xs ! k"
  by (auto simp: np_set_def split: option.splits)

lemma j2m_Cons_Inr:
  assumes "j2m_loop h ((j, p) # rest) live = Inr mp"
  obtains (skip) "map_of (joint_to_motor_map h) j = None" "j2m_loop h rest live = Inr mp"
  | (store) m lo hi rom_min rom_max ratio live' where
      "map_of (joint_to_motor_map h) j = Some m"
      "map_of (motor_limits h) m = Some (Some lo, Some hi)"
      "map_of (joint_roms h) j = Some (rom_min, rom_max)"
      "map_of (joint_to_motor_ratios h) m = Some ratio"
      "np_set live (m - 1) (lo + (p - rom_min) * ratio) = Inr live'"
      "j2m_loop h rest live' = Inr mp"
  using assms by (auto split: option.splits sum.splits if_splits)

lemma j2m_length: "j2m_loop h jp live = Inr mp \<Longrightarrow> length mp = length live"
proof (induction jp arbitrary: live)
  case Nil
  then show ?case by simp
next
  case (Cons a jp)
  obtain j p where a: "a = (j, p)" by (cases a)
  from Cons.prems[unfolded a] show ?case
  proof (cases rule: j2m_Cons_Inr)
    case skip
    then show ?thesis using Cons.IH by simp
  next
    case (store m lo hi rom_min rom_max ratio live')
    then show ?thesis using Cons.IH[of live'] np_set_length by fastforce
  qed
qed

lemma j2m_frame:
  "j2m_loop h jp live = Inr mp \<Longrightarrow>
   \<forall>j \<in> fst ` set jp. \<forall>m. map_of (joint_to_motor_map h) j = Some m \<longrightarrow>
       np_slot (length live) (m - 1) \<noteq> Some i \<Longrightarrow>
   mp ! i = live ! i"
proof (induction jp arbitrary: live)
  case Nil
  then show ?case by simp
next
  case (Cons a jp)
  obtain j p where a: "a = (j, p)" by (cases a)
  from Cons.prems(1)[unfolded a] show ?case
  proof (cases rule: j2m_Cons_Inr)
    case skip
    then show ?thesis using Cons.IH[of live] Cons.prems(2) by simp
  next
    case (store m lo hi rom_min rom_max ratio live')
    have len: "length live' = length live" using store(5) by (rule np_set_length)
    have "np_slot (length live) (m - 1) \<noteq> Some i"
      using Cons.prems(2) store(1) a by simp
    then have "live' ! i = live ! i" using store(5) np_set_other by blast
    moreover have "mp ! i = live' ! i"
      using Cons.IH[OF store(6)] Cons.prems(2) len by simp
    ultimately show ?thesis by simp
  qed
qed


lemma j2m_value:
  assumes "j2m_loop h jp live = Inr mp"
    and "distinct (map fst jp)"
    and "(j, p) \<in> set jp"
    and "map_of (joint_to_motor_map h) j = Some m"
    and "np_slot (length live) (m - 1) = Some k"
    and "\<forall>j' \<in> fst ` set jp. j' \<noteq> j \<longrightarrow>
           (\<forall>m'. map_of (joint_to_motor_map h) j' = Some m' \<longrightarrow>
              np_slot (length live) (m' - 1) \<noteq> Some k)"
  shows "\<exists>lo hi rom_min rom_max ratio.
           map_of (motor_limits h) m = Some (Some lo, Some hi) \<and>
           map_of (joint_roms h) j = Some (rom_min, rom_max) \<and>
           map_of (joint_to_motor_ratios h) m = Some ratio \<and>
           mp ! k = lo + (p - rom_min) * ratio"
  using assms
proof (induction jp arbitrary: live)
  case Nil
  then show ?case by simp
next
  case (Cons a jp)
  obtain j0 p0 where a: "a = (j0, p0)" by (cases a)
  show ?case
  proof (cases "j0 = j")
    case True
    have p0: "p0 = p" using Cons.prems(2,3) a True by (auto simp: image_iff)
    have notin: "j \<notin> fst ` set jp" using Cons.prems(2) a True by simp
    from Cons.prems(1)[unfolded a] show ?thesis
    proof (cases rule: j2m_Cons_Inr)
      case skip
      then show ?thesis using Cons.prems(4) True by simp
    next
      case (store m0 lo hi rom_min rom_max ratio live')
      have m0: "m0 = m" using store(1) Cons.prems(4) True by simp
      have len: "length live' = length live" using store(5) by (rule np_set_length)
      have "live' ! k = lo + (p0 - rom_min) * ratio"
        using np_set_nth[OF store(5)] Cons.prems(5) m0 by simp
      moreover have "mp ! k = live' ! k"
      proof (rule j2m_frame[OF store(6)])
        show "\<forall>j\<in>fst ` set jp. \<forall>m. map_of (joint_to_motor_map h) j = Some m \<longrightarrow>
                np_slot (length live') (m - 1) \<noteq> Some k"
        proof (intro ballI allI impI)
          fix j' m'
          assume j': "j' \<in> fst ` set jp" and m': "map_of (joint_to_motor_map h) j' = Some m'"
          from j' notin have "j' \<noteq> j" by blast
          moreover from j' have "j' \<in> fst ` set (a # jp)" by auto
          ultimately show "np_slot (length live') (m' - 1) \<noteq> Some k"
            using Cons.prems(6) m' len by metis
        qed
      qed
      ultimately show ?thesis using store(2,3,4) m0 p0 True by simp
    qed
  next
    case False
    have mem: "(j, p) \<in> set jp" using Cons.prems(3) a False by auto
    have dist: "distinct (map fst jp)" using Cons.prems(2) by simp
    from Cons.prems(1)[unfolded a] show ?thesis
    proof (cases rule: j2m_Cons_Inr)
      case skip
      show ?thesis
        by (rule Cons.IH[OF skip(2) dist mem Cons.prems(4,5)]) (use Cons.prems(6) in auto)
    next
      case (store m0 lo hi rom_min rom_max ratio live')
      have len: "length live' = length live" using store(5) by (rule np_set_length)
      show ?thesis
        by (rule Cons.IH[OF store(6) dist mem Cons.prems(4)])
           (use Cons.prems(5,6) len in auto)
    qed
  qed
qed


lemma j2m_uncalibrated_raises:
  "j \<in> fst ` set jp \<Longrightarrow> uncalibrated_joint h j \<Longrightarrow> \<exists>e. j2m_loop h jp live = Inl e"
proof (induction jp arbitrary: live)
  case Nil
  then show ?case by simp
next
  case (Cons a jp)
  obtain j0 p0 where a: "a = (j0, p0)" by (cases a)
  show ?case
  proof (cases "j0 = j")
    case True
    then show ?thesis using Cons.prems(2) a
      by (auto simp: uncalibrated_joint_def split: option.splits)
  next
    case False
    then have "j \<in> fst ` set jp" using Cons.prems(1) a by auto
    then have "\<And>live. \<exists>e. j2m_loop h jp live = Inl e" using Cons.IH Cons.prems(2) by blast
    then show ?thesis unfolding a
      by (auto split: option.splits sum.splits) 
  qed
qed

lemma j2m_first_uncalibrated:
  assumes "List.find (\<lambda>(j, p). uncalibrated_joint h j) jp = Some (j, p)"
    and "\<forall>j' \<in> fst ` set jp. tables_cover h (length live) j'"
  shows "\<exists>m. map_of (joint_to_motor_map h) j = Some m \<and>
             j2m_loop h jp live = Inl (NotCalibrated m j)"
  using assms
proof (induction jp arbitrary: live)
  case Nil
  then show ?case by simp
next
  case (Cons a jp)
  obtain j0 p0 where a: "a = (j0, p0)" by (cases a)
  show ?case
  proof (cases "uncalibrated_joint h j0")
    case True
    then have "j0 = j" using Cons.prems(1) a by simp
    then show ?thesis using True a
      by (auto simp: uncalibrated_joint_def split: option.splits)
  next
    case False
    then have f: "List.find (\<lambda>(j, p). uncalibrated_joint h j) jp = Some (j, p)"
      using Cons.prems(1) a by simp
    have c0: "tables_cover h (length live) j0" using Cons.prems(2) a by simp
    have cov: "\<And>n. n = length live \<Longrightarrow> \<forall>j' \<in> fst ` set jp. tables_cover h n j'"
      using Cons.prems(2) by simp
    show ?thesis
    proof (cases "map_of (joint_to_motor_map h) j0")
      case None
      then show ?thesis using Cons.IH[OF f cov[OF refl]] a by simp
    next
      case (Some m0)
      with c0 False obtain lo hi rom ratio k where
        l: "map_of (motor_limits h) m0 = Some (Some lo, Some hi)"
        and r: "map_of (joint_roms h) j0 = Some rom"
        and q: "map_of (joint_to_motor_ratios h) m0 = Some ratio"
        and s: "np_slot (length live) (m0 - 1) = Some k"
        by (auto simp: tables_cover_def uncalibrated_joint_def split: option.splits)
      obtain rom_min rom_max where rom: "rom = (rom_min, rom_max)" by (cases rom)
      let ?live' = "live[k := lo + (p0 - rom_min) * ratio]"
      have "j2m_loop h (a # jp) live = j2m_loop h jp ?live'"
        using Some l r q s a rom by (simp add: np_set_def)
      moreover have "\<exists>m. map_of (joint_to_motor_map h) j = Some m \<and>
             j2m_loop h jp ?live' = Inl (NotCalibrated m j)"
        by (rule Cons.IH[OF f]) (use cov in simp)
      ultimately show ?thesis by simp
    qed
  qed
qed

subsection \<open>The inverse map and the motor-to-joint loop\<close>

lemma m2jmap_SomeD:
  "motor_to_joint_map h m = Some j \<Longrightarrow> (j, m) \<in> set (joint_to_motor_map h)"
  by (auto simp: motor_to_joint_map_def dest!: map_of_SomeD)

lemma m2jmap_inj:
  assumes "distinct (map fst (joint_to_motor_map h))"
    and "motor_to_joint_map h m = Some j" and "motor_to_joint_map h m' = Some j"
  shows "m = m'"
  using assms(1) m2jmap_SomeD[OF assms(2)] m2jmap_SomeD[OF assms(3)]
  by (rule eq_key_imp_eq_value)

lemma m2jmap_inverse:
  assumes "distinct (map snd (joint_to_motor_map h))"
    and "map_of (joint_to_motor_map h) j = Some m"
  shows "motor_to_joint_map h m = Some j"
proof -
  let ?sw = "map (\<lambda>(k, v). (v, k)) (joint_to_motor_map h)"
  have d: "distinct (map fst (rev ?sw))"
    using assms(1) by (simp add: rev_map[symmetric] comp_def case_prod_unfold)
  have "(m, j) \<in> set (rev ?sw)" using map_of_SomeD[OF assms(2)] by force
  then show ?thesis unfolding motor_to_joint_map_def using d by (rule map_of_is_SomeI[rotated])
qed

lemma int_shift: "k + int (Suc n) = k + 1 + int n"
  by simp

lemma entry_key:
  "motor_to_joint_entry h m x = Inr (key, v) \<Longrightarrow> key = motor_to_joint_map h m"
  by (auto simp: motor_to_joint_entry_def Let_def split: option.splits if_splits)

lemma m2j_keep:
  "m2j_loop h k mp acc = Inr res \<Longrightarrow>
   \<forall>i<length mp. motor_to_joint_map h (k + int i) \<noteq> key \<Longrightarrow>
   map_of res key = map_of acc key"
proof (induction mp arbitrary: k acc)
  case Nil
  then show ?case by simp
next
  case (Cons x mp)
  from Cons.prems(1) obtain key0 v0 where
    e: "motor_to_joint_entry h k x = Inr (key0, v0)"
    and r: "m2j_loop h (k + 1) mp (AList.update key0 v0 acc) = Inr res"
    by (auto split: sum.splits)
  have k0: "key0 \<noteq> key" using entry_key[OF e] Cons.prems(2) by auto
  have "\<forall>i<length mp. motor_to_joint_map h (k + 1 + int i) \<noteq> key"
  proof (intro allI impI)
    fix i assume "i < length mp"
    then have "Suc i < length (x # mp)" by simp
    then have "motor_to_joint_map h (k + int (Suc i)) \<noteq> key" using Cons.prems(2) by blast
    then show "motor_to_joint_map h (k + 1 + int i) \<noteq> key" unfolding int_shift .
  qed
  from Cons.IH[OF r this] show ?case using k0 by (simp add: update_conv')
qed

lemma m2j_at:
  "m2j_loop h k mp acc = Inr res \<Longrightarrow> i < length mp \<Longrightarrow>
   motor_to_joint_map h (k + int i) = key \<Longrightarrow>
   \<forall>i'<length mp. i' \<noteq> i \<longrightarrow> motor_to_joint_map h (k + int i') \<noteq> key \<Longrightarrow>
   \<exists>v. motor_to_joint_entry h (k + int i) (mp ! i) = Inr (key, v) \<and> map_of res key = Some v"
proof (induction mp arbitrary: k acc i)
  case Nil
  then show ?case by simp
next
  case (Cons x mp)
  from Cons.prems(1) obtain key0 v0 where
    e: "motor_to_joint_entry h k x = Inr (key0, v0)"
    and r: "m2j_loop h (k + 1) mp (AList.update key0 v0 acc) = Inr res"
    by (auto split: sum.splits)
  have shift: "\<And>n. k + int (Suc n) = k + 1 + int n" by simp
  show ?case
  proof (cases i)
    case 0
    have key0: "key0 = key" using entry_key[OF e] Cons.prems(3) 0 by simp
    have "\<forall>i<length mp. motor_to_joint_map h (k + 1 + int i) \<noteq> key"
    proof (intro allI impI)
      fix n assume "n < length mp"
      then have "Suc n < length (x # mp)" "Suc n \<noteq> i" using 0 by simp_all
      then have "motor_to_joint_map h (k + int (Suc n)) \<noteq> key" using Cons.prems(4) by blast
      then show "motor_to_joint_map h (k + 1 + int n) \<noteq> key" unfolding shift .
    qed
    from m2j_keep[OF r this] have "map_of res key = Some v0" using key0 by (simp add: update_conv')
    then show ?thesis using e key0 0 by simp
  next
    case (Suc n)
    have n: "n < length mp" using Cons.prems(2) Suc by simp
    have kn: "motor_to_joint_map h (k + 1 + int n) = key"
      using Cons.prems(3) unfolding Suc shift .
    have "\<forall>i'<length mp. i' \<noteq> n \<longrightarrow> motor_to_joint_map h (k + 1 + int i') \<noteq> key"
    proof (intro allI impI)
      fix i' assume "i' < length mp" "i' \<noteq> n"
      then have "Suc i' < length (x # mp)" "Suc i' \<noteq> i" using Suc by simp_all
      then have "motor_to_joint_map h (k + int (Suc i')) \<noteq> key" using Cons.prems(4) by blast
      then show "motor_to_joint_map h (k + 1 + int i') \<noteq> key" unfolding shift .
    qed
    from Cons.IH[OF r n kn this] show ?thesis unfolding Suc shift by simp
  qed
qed

lemma m2j_total:
  "\<forall>i<length mp. \<exists>r. motor_to_joint_entry h (k + int i) (mp ! i) = Inr r \<Longrightarrow>
   \<exists>res. m2j_loop h k mp acc = Inr res"
proof (induction mp arbitrary: k acc)
  case Nil
  then show ?case by simp
next
  case (Cons x mp)
  from Cons.prems have "\<exists>r. motor_to_joint_entry h (k + int 0) ((x # mp) ! 0) = Inr r" by blast
  then obtain key0 v0 where e: "motor_to_joint_entry h k x = Inr (key0, v0)" by auto
  have "\<forall>i<length mp. \<exists>r. motor_to_joint_entry h (k + 1 + int i) (mp ! i) = Inr r"
  proof (intro allI impI)
    fix i assume "i < length mp"
    then have "Suc i < length (x # mp)" by simp
    then have "\<exists>r. motor_to_joint_entry h (k + int (Suc i)) ((x # mp) ! Suc i) = Inr r"
      using Cons.prems by blast
    then show "\<exists>r. motor_to_joint_entry h (k + 1 + int i) (mp ! i) = Inr r"
      by (simp only: int_shift nth_Cons_Suc)
  qed
  from Cons.IH[OF this] show ?case using e by simp
qed

subsection \<open>Uncalibrated motors, the frame and unknown joints\<close>

lemmas hand2_simps = hand2_def transport2_def motor_to_joint_map_def get_motor_pos_def
  np_set_def np_get_def np_slot_def

text \<open>
  Claim C3. A motor whose limit pair has an undefined bound is reported by
  \<open>_motor_to_joint_pos\<close> with the value \<open>None\<close> under its joint's name: the key is
  present in the returned mapping and its value is \<open>None\<close>, whatever the position
  vector holds. The motor is one the vector has a position for (ids \<open>1 .. len\<close>, as
  \<open>enumerate\<close> numbers them) and has a joint in the inverse map.
\<close>

theorem C3_uncalibrated_reported_None:
  assumes "distinct (map fst (joint_to_motor_map h))"
    and "motor_to_joint_pos h motor_pos = Inr joint_pos"
    and "1 \<le> motor_id" and "motor_id \<le> int (length motor_pos)"
    and "map_of (motor_limits h) motor_id = Some motor_limit"
    and "any_limit_none motor_limit"
    and "motor_to_joint_map h motor_id = Some joint_name"
  shows "map_of joint_pos (Some joint_name) = Some None"
proof -
  define i where "i = nat (motor_id - 1)"
  have i: "i < length motor_pos" and mi: "1 + int i = motor_id"
    using assms(3,4) by (auto simp: i_def)
  have other: "\<forall>i'<length motor_pos. i' \<noteq> i \<longrightarrow>
      motor_to_joint_map h (1 + int i') \<noteq> Some joint_name"
  proof (intro allI impI notI)
    fix i' assume "i' \<noteq> i" and "motor_to_joint_map h (1 + int i') = Some joint_name"
    from m2jmap_inj[OF assms(1) this(2)] assms(7) have "1 + int i' = motor_id" by simp
    with mi \<open>i' \<noteq> i\<close> show False by simp
  qed
  have k: "motor_to_joint_map h (1 + int i) = Some joint_name" using assms(7) mi by simp
  from m2j_at[OF assms(2)[unfolded motor_to_joint_pos_def] i k other]
  obtain v where e: "motor_to_joint_entry h motor_id (motor_pos ! i) = Inr (Some joint_name, v)"
    and r: "map_of joint_pos (Some joint_name) = Some v"
    using mi by auto
  obtain lo hi where l: "motor_limit = (lo, hi)" by (cases motor_limit)
  have "v = None" using e assms(5,6) l
    by (auto simp: motor_to_joint_entry_def Let_def)
  with r show ?thesis by simp
qed

text \<open>Motor 2 of \<open>hand2\<close> has no lower limit; its joint is reported as \<open>None\<close>.\<close>

theorem C3_witness:
  "motor_to_joint_pos hand2 [3 / 10, 4 / 10] =
     Inr [(Some ''thumb'', Some (Fin (2041 / 2000))), (Some ''index'', None)] \<and>
   map_of (motor_limits hand2) 2 = Some (None, Some 1) \<and>
   map_of [(Some ''thumb'', Some (Fin (2041 / 2000))), (Some ''index'', None)] (Some ''index'')
     = Some None"
proof -
  have r: "motor_to_joint_pos hand2 [3 / 10, 4 / 10] =
     Inr [(Some ''thumb'', Some (Fin (2041 / 2000))), (Some ''index'', None)]"
    by (simp add: motor_to_joint_pos_def motor_to_joint_entry_def hand2_simps)
  have l: "map_of (motor_limits hand2) 2 = Some (None, Some 1)" by (simp add: hand2_def)
  have "map_of [(Some ''thumb'', Some (Fin (2041 / 2000))), (Some ''index'', None)] (Some ''index'')
     = Some None"
    by (rule C3_uncalibrated_reported_None[OF _ r _ _ l])
       (simp_all add: hand2_simps)
  with r l show ?thesis by simp
qed

text \<open>
  Claim C7. The vector \<open>_joint_to_motor_pos\<close> returns has the length of the live
  position vector and equals it at every index that no mentioned joint's motor addresses
  (slot \<open>motor_id - 1\<close>, read as numpy reads an index). Where motor ids are positive,
  index \<open>i\<close> is the slot of motor \<open>i + 1\<close> alone, so it is unchanged when no
  mentioned joint maps to that motor. \<open>set_joint_pos\<close> then writes this vector as it
  is, in one write.
\<close>

theorem C7_frame:
  assumes "joint_to_motor_pos h joint_pos t = Inr motor_pos"
  shows "length motor_pos = length (get_motor_pos t) \<and>
    (\<forall>i<length motor_pos.
       (\<forall>j \<in> fst ` set joint_pos. \<forall>m. map_of (joint_to_motor_map h) j = Some m \<longrightarrow>
            np_slot (length (get_motor_pos t)) (m - 1) \<noteq> Some i) \<longrightarrow>
       motor_pos ! i = get_motor_pos t ! i) \<and>
    ((\<forall>j m. map_of (joint_to_motor_map h) j = Some m \<longrightarrow> 1 \<le> m) \<longrightarrow>
       (\<forall>i<length motor_pos.
          (\<forall>j \<in> fst ` set joint_pos. map_of (joint_to_motor_map h) j \<noteq> Some (int i + 1)) \<longrightarrow>
          motor_pos ! i = get_motor_pos t ! i)) \<and>
    (length motor_pos = length (motor_ids h) \<longrightarrow>
       set_joint_pos h joint_pos t = (None, write_desired_pos t (motor_ids h) motor_pos))"
proof -
  let ?live = "get_motor_pos t"
  have loop: "j2m_loop h joint_pos ?live = Inr motor_pos"
    using assms by (simp add: joint_to_motor_pos_def)
  have len: "length motor_pos = length ?live" using loop by (rule j2m_length)
  have frame: "\<And>i. \<forall>j \<in> fst ` set joint_pos. \<forall>m. map_of (joint_to_motor_map h) j = Some m \<longrightarrow>
            np_slot (length ?live) (m - 1) \<noteq> Some i \<Longrightarrow> motor_pos ! i = ?live ! i"
    using loop by (rule j2m_frame)
  have pos: "motor_pos ! i = ?live ! i"
    if ids: "\<forall>j m. map_of (joint_to_motor_map h) j = Some m \<longrightarrow> 1 \<le> m"
      and nm: "\<forall>j \<in> fst ` set joint_pos. map_of (joint_to_motor_map h) j \<noteq> Some (int i + 1)"
    for i
  proof (rule frame, intro ballI allI impI)
    fix j m assume j: "j \<in> fst ` set joint_pos" and m: "map_of (joint_to_motor_map h) j = Some m"
    from ids m have "1 \<le> m" by blast
    moreover from nm j m have "m \<noteq> int i + 1" by auto
    ultimately show "np_slot (length ?live) (m - 1) \<noteq> Some i"
      by (auto simp: np_slot_def)
  qed
  have wr: "set_joint_pos h joint_pos t = (None, write_desired_pos t (motor_ids h) motor_pos)"
    if "length motor_pos = length (motor_ids h)"
    using that assms by (simp add: set_joint_pos_def set_motor_pos_def)
  show ?thesis using len frame pos wr by blast
qed

text \<open>Only the thumb is mentioned: slot 1, the index finger's, keeps its live value.\<close>

theorem C7_witness:
  "joint_to_motor_pos hand2 [(''thumb'', 785 / 1000)] transport2 = Inr [0, 4 / 10] \<and>
   [0, 4 / 10 :: real] ! 1 = get_motor_pos transport2 ! 1 \<and>
   set_joint_pos hand2 [(''thumb'', 785 / 1000)] transport2 =
     (None, write_desired_pos transport2 [1, 2] [0, 4 / 10])"
proof -
  have r: "joint_to_motor_pos hand2 [(''thumb'', 785 / 1000)] transport2 = Inr [0, 4 / 10]"
    by (simp add: joint_to_motor_pos_def hand2_simps)
  from C7_frame[OF r] show ?thesis using r
    by (simp add: hand2_simps)
qed

lemma j2m_skip_unknown:
  "j2m_loop h joint_pos mp =
   j2m_loop h (filter (\<lambda>(j, p). map_of (joint_to_motor_map h) j \<noteq> None) joint_pos) mp"
  by (induction h joint_pos mp rule: j2m_loop.induct)
     (auto split: option.splits sum.splits)

text \<open>
  Claim C8, as amended. A joint name that is not a key of \<open>joint_to_motor_map\<close> is
  skipped (\<open>continue\<close>): \<open>set_joint_pos\<close> behaves as if the mapping did not mention
  it, and the remaining joints are processed.
\<close>

theorem C8_unknown_joint_skipped:
  "set_joint_pos h joint_pos t =
   set_joint_pos h (filter (\<lambda>(j, p). map_of (joint_to_motor_map h) j \<noteq> None) joint_pos) t"
  unfolding set_joint_pos_def joint_to_motor_pos_def 
  using j2m_skip_unknown[of h joint_pos] by simp

text \<open>
  The claim as stated fails: \<open>pinky\<close> is not a declared joint of \<open>hand2\<close>, yet the
  call raises nothing, converts the thumb and issues the write.
\<close>

theorem C8_counterexample:
  "map_of (joint_to_motor_map hand2) ''pinky'' = None \<and>
   set_joint_pos hand2 [(''pinky'', 1), (''thumb'', 785 / 1000)] transport2 =
     (None, transport2\<lparr>pos_writes := [([1, 2], [0, 4 / 10])]\<rparr>)"
  by (simp add: hand2_simps set_joint_pos_def joint_to_motor_pos_def
       set_motor_pos_def write_desired_pos_def)

text \<open>
  Claim C6, as amended. When the mapping mentions an uncalibrated joint, \<open>set_joint_pos\<close>
  raises and leaves the transport untouched: no position write is issued. The exception
  is the not-calibrated \<open>ValueError\<close> of the first uncalibrated joint in iteration order
  whenever the tables cover the mentioned joints; without that, a joint iterated earlier
  can raise a \<open>KeyError\<close> or an \<open>IndexError\<close> first.
\<close>

theorem C6_uncalibrated_no_write:
  assumes "\<exists>j \<in> fst ` set joint_pos. uncalibrated_joint h j"
  shows "\<exists>e. set_joint_pos h joint_pos t = (Some e, t) \<and>
    ((\<forall>j \<in> fst ` set joint_pos. tables_cover h (length (get_motor_pos t)) j) \<longrightarrow>
     (\<exists>j p m. List.find (\<lambda>(j, p). uncalibrated_joint h j) joint_pos = Some (j, p) \<and>
        map_of (joint_to_motor_map h) j = Some m \<and> e = NotCalibrated m j))"
proof -
  from assms obtain j0 where j0: "j0 \<in> fst ` set joint_pos" "uncalibrated_joint h j0" by blast
  from j2m_uncalibrated_raises[OF j0] obtain e where
    e: "j2m_loop h joint_pos (get_motor_pos t) = Inl e" by blast
  have s: "set_joint_pos h joint_pos t = (Some e, t)"
    using e by (simp add: set_joint_pos_def joint_to_motor_pos_def)
  have "\<exists>j p m. List.find (\<lambda>(j, p). uncalibrated_joint h j) joint_pos = Some (j, p) \<and>
        map_of (joint_to_motor_map h) j = Some m \<and> e = NotCalibrated m j"
    if cov: "\<forall>j \<in> fst ` set joint_pos. tables_cover h (length (get_motor_pos t)) j"
  proof -
    from j0 have "\<exists>x \<in> set joint_pos. (\<lambda>(j, p). uncalibrated_joint h j) x" by force
    then obtain x where "List.find (\<lambda>(j, p). uncalibrated_joint h j) joint_pos = Some x"
      by (cases "List.find (\<lambda>(j, p). uncalibrated_joint h j) joint_pos")
         (auto simp: find_None_iff)
    then obtain j p where f: "List.find (\<lambda>(j, p). uncalibrated_joint h j) joint_pos = Some (j, p)"
      by (cases x) auto
    from j2m_first_uncalibrated[OF f cov] e f show ?thesis by auto
  qed
  with s show ?thesis by blast
qed

text \<open>The index finger of \<open>hand2\<close> is uncalibrated: the call raises for it and writes nothing.\<close>

theorem C6_witness:
  "uncalibrated_joint hand2 ''index'' \<and>
   set_joint_pos hand2 [(''thumb'', 0), (''index'', 0)] transport2 =
     (Some (NotCalibrated 2 ''index''), transport2)"
proof -
  have u: "uncalibrated_joint hand2 ''index''"
    by (simp add: uncalibrated_joint_def hand2_def)
  have c: "\<forall>j \<in> fst ` set [(''thumb'', 0::real), (''index'', 0)].
             tables_cover hand2 (length (get_motor_pos transport2)) j"
    by (simp add: tables_cover_def hand2_simps)
  have f: "List.find (\<lambda>(j, p). uncalibrated_joint hand2 j) [(''thumb'', 0::real), (''index'', 0)]
             = Some (''index'', 0)"
    by (simp add: uncalibrated_joint_def hand2_def)
  have "\<exists>j \<in> fst ` set [(''thumb'', 0::real), (''index'', 0)]. uncalibrated_joint hand2 j"
    using u by simp
  from C6_uncalibrated_no_write[OF this, of transport2] c f
  have "set_joint_pos hand2 [(''thumb'', 0), (''index'', 0)] transport2 =
     (Some (NotCalibrated 2 ''index''), transport2)"
    by (auto simp: hand2_def)
  with u show ?thesis by simp
qed

text \<open>
  The claim as stated fails on the kind of the exception: with an empty ratio table the
  thumb, iterated first, raises \<open>KeyError\<close> before the uncalibrated index finger is
  reached.
\<close>

theorem C6_counterexample:
  "uncalibrated_joint hand2_no_ratio ''index'' \<and>
   set_joint_pos hand2_no_ratio [(''thumb'', 0), (''index'', 0)] transport2 =
     (Some (KeyErrorMotor 1), transport2)"
  by (simp add: uncalibrated_joint_def hand2_no_ratio_def hand2_simps set_joint_pos_def
        joint_to_motor_pos_def)

subsection \<open>The round trip\<close>

lemma np_slot_pos: "1 \<le> m \<Longrightarrow> m \<le> int n \<Longrightarrow> np_slot n (m - 1) = Some (nat (m - 1))"
  by (simp add: np_slot_def)

lemma np_slot_pos_eq: "1 \<le> m \<Longrightarrow> np_slot n (m - 1) = Some k \<Longrightarrow> m = int k + 1"
  by (auto simp: np_slot_def split: if_splits)

lemma calibrated_jointD:
  assumes "calibrated_joint h n j"
  obtains m lo hi rom_min rom_max ratio where
    "map_of (joint_to_motor_map h) j = Some m" "1 \<le> m" "m \<le> int n"
    "map_of (motor_limits h) m = Some (Some lo, Some hi)"
    "map_of (joint_roms h) j = Some (rom_min, rom_max)"
    "map_of (joint_to_motor_ratios h) m = Some ratio" "ratio \<noteq> 0"
  using assms by (auto simp: calibrated_joint_def split: option.splits)

lemma j2m_total:
  "\<forall>j \<in> fst ` set jp. calibrated_joint h (length live) j \<Longrightarrow>
   \<exists>mp. j2m_loop h jp live = Inr mp"
proof (induction jp arbitrary: live)
  case Nil
  then show ?case by simp
next
  case (Cons a jp)
  obtain j p where a: "a = (j, p)" by (cases a)
  from Cons.prems a have "calibrated_joint h (length live) j" by simp
  then obtain m lo hi rom_min rom_max ratio where
    m: "map_of (joint_to_motor_map h) j = Some m" "1 \<le> m" "m \<le> int (length live)"
    and l: "map_of (motor_limits h) m = Some (Some lo, Some hi)"
    and r: "map_of (joint_roms h) j = Some (rom_min, rom_max)"
    and q: "map_of (joint_to_motor_ratios h) m = Some ratio"
    by (rule calibrated_jointD)
  let ?live' = "live[nat (m - 1) := lo + (p - rom_min) * ratio]"
  have "j2m_loop h (a # jp) live = j2m_loop h jp ?live'"
    using m l r q a by (simp add: np_set_def np_slot_pos)
  moreover have "\<exists>mp. j2m_loop h jp ?live' = Inr mp"
    by (rule Cons.IH) (use Cons.prems in simp)
  ultimately show ?case by simp
qed

lemma motor_covered_entry:
  "motor_covered h m \<Longrightarrow> \<exists>r. motor_to_joint_entry h m x = Inr r"
  by (auto simp: motor_covered_def motor_to_joint_entry_def Let_def split: option.splits)

text \<open>
  The values of the round trip: where the conversion back returns a mapping, it holds each
  mentioned joint with the value it was given; and it returns one when the tables cover
  every motor of the vector.
\<close>

lemma round_trip_values:
  assumes jm_keys: "distinct (map fst (joint_to_motor_map h))"
    and jm_inj: "distinct (map snd (joint_to_motor_map h))"
    and jp_keys: "distinct (map fst joint_pos)"
    and cal: "\<forall>j \<in> fst ` set joint_pos. calibrated_joint h (length (get_motor_pos t)) j"
  shows "\<exists>motor_pos. joint_to_motor_pos h joint_pos t = Inr motor_pos \<and>
    (\<forall>res. motor_to_joint_pos h motor_pos = Inr res \<longrightarrow>
       (\<forall>(j, p) \<in> set joint_pos. map_of res (Some j) = Some (Some (Fin p)))) \<and>
    ((\<forall>m \<in> {1 .. int (length motor_pos)}. motor_covered h m) \<longrightarrow>
       (\<exists>res. motor_to_joint_pos h motor_pos = Inr res))"
proof -
  let ?live = "get_motor_pos t"
  from j2m_total[OF cal] obtain mp where mp: "j2m_loop h joint_pos ?live = Inr mp" by blast
  have len: "length mp = length ?live" using mp by (rule j2m_length)
  have rt: "map_of res (Some j) = Some (Some (Fin p))"
    if res: "motor_to_joint_pos h mp = Inr res" and jp: "(j, p) \<in> set joint_pos" for res j p
  proof -
    from jp cal have "calibrated_joint h (length ?live) j" by force
    then obtain m lo hi rom_min rom_max ratio where
      m: "map_of (joint_to_motor_map h) j = Some m" "1 \<le> m" "m \<le> int (length ?live)"
      and l: "map_of (motor_limits h) m = Some (Some lo, Some hi)"
      and r: "map_of (joint_roms h) j = Some (rom_min, rom_max)"
      and q: "map_of (joint_to_motor_ratios h) m = Some ratio" and nz: "ratio \<noteq> 0"
      by (rule calibrated_jointD)
    define k where "k = nat (m - 1)"
    have slot: "np_slot (length ?live) (m - 1) = Some k"
      using m(2,3) by (simp add: np_slot_pos k_def)
    have k: "k < length mp" and mk: "1 + int k = m" using m(2,3) len by (auto simp: k_def)
    have others: "\<forall>j' \<in> fst ` set joint_pos. j' \<noteq> j \<longrightarrow>
           (\<forall>m'. map_of (joint_to_motor_map h) j' = Some m' \<longrightarrow>
              np_slot (length ?live) (m' - 1) \<noteq> Some k)"
    proof (intro ballI allI impI notI)
      fix j' m'
      assume j': "j' \<in> fst ` set joint_pos" "j' \<noteq> j"
        and m': "map_of (joint_to_motor_map h) j' = Some m'"
        and s: "np_slot (length ?live) (m' - 1) = Some k"
      from j'(1) cal have "calibrated_joint h (length ?live) j'" by blast
      with m' have "1 \<le> m'" by (auto elim!: calibrated_jointD)
      from np_slot_pos_eq[OF this s] mk have "m' = m" by simp
      with m' m(1) have "(j', m) \<in> set (joint_to_motor_map h)" "(j, m) \<in> set (joint_to_motor_map h)"
        by (auto dest: map_of_SomeD)
      with jm_inj have "j' = j"
        by (metis (no_types, lifting) distinct_map inj_on_def snd_conv fst_conv)
      with j'(2) show False by simp
    qed
    from j2m_value[OF mp jp_keys jp m(1) slot others] l r q
    have v: "mp ! k = lo + (p - rom_min) * ratio" by auto
    have key: "motor_to_joint_map h (1 + int k) = Some j"
      using m2jmap_inverse[OF jm_inj m(1)] mk by simp
    have uniq: "\<forall>i'<length mp. i' \<noteq> k \<longrightarrow> motor_to_joint_map h (1 + int i') \<noteq> Some j"
    proof (intro allI impI notI)
      fix i' assume "i' \<noteq> k" and "motor_to_joint_map h (1 + int i') = Some j"
      from m2jmap_inj[OF jm_keys this(2) key] \<open>i' \<noteq> k\<close> show False by simp
    qed
    from m2j_at[OF res[unfolded motor_to_joint_pos_def] k key uniq]
    obtain w where e: "motor_to_joint_entry h m (mp ! k) = Inr (Some j, w)"
      and w: "map_of res (Some j) = Some w"
      using mk by auto
    have "w = Some (Fin p)"
      using e l r q nz v m2jmap_inverse[OF jm_inj m(1)]
      by (simp add: motor_to_joint_entry_def Let_def)
    with w show ?thesis by simp
  qed
  have total: "\<exists>res. motor_to_joint_pos h mp = Inr res"
    if cov: "\<forall>m \<in> {1 .. int (length mp)}. motor_covered h m"
    unfolding motor_to_joint_pos_def
  proof (rule m2j_total, intro allI impI)
    fix i assume "i < length mp"
    then have "1 + int i \<in> {1 .. int (length mp)}" by simp
    with cov have "motor_covered h (1 + int i)" by blast
    then show "\<exists>r. motor_to_joint_entry h (1 + int i) (mp ! i) = Inr r"
      by (rule motor_covered_entry)
  qed
  have "joint_to_motor_pos h joint_pos t = Inr mp" using mp by (simp add: joint_to_motor_pos_def)
  with rt total show ?thesis by blast
qed

text \<open>
  Claim C1, as amended. Let the joint-to-motor map be one-to-one, let the tables cover
  every motor \<open>1 .. N\<close> of the position vector, and let every mentioned joint be
  calibrated with a ratio other than zero. Then \<open>_joint_to_motor_pos\<close> returns a vector,
  \<open>_motor_to_joint_pos\<close> returns a mapping for that vector, and the mapping holds each
  mentioned joint with exactly the value it was given. The statement is one of exact
  arithmetic; it bounds no rounding error.
\<close>

theorem C1_round_trip:
  assumes jm_keys: "distinct (map fst (joint_to_motor_map h))"
    and jm_inj: "distinct (map snd (joint_to_motor_map h))"
    and jp_keys: "distinct (map fst joint_pos)"
    and cal: "\<forall>j \<in> fst ` set joint_pos. calibrated_joint h (length (get_motor_pos t)) j"
    and cov: "\<forall>m \<in> {1 .. int (length (get_motor_pos t))}. motor_covered h m"
  shows "\<exists>motor_pos res.
    joint_to_motor_pos h joint_pos t = Inr motor_pos \<and>
    motor_to_joint_pos h motor_pos = Inr res \<and>
    (\<forall>(j, p) \<in> set joint_pos. map_of res (Some j) = Some (Some (Fin p)))"
proof -
  from round_trip_values[OF jm_keys jm_inj jp_keys cal] obtain mp where
    mp: "joint_to_motor_pos h joint_pos t = Inr mp"
    and vals: "\<And>res. motor_to_joint_pos h mp = Inr res \<Longrightarrow>
       (\<forall>(j, p) \<in> set joint_pos. map_of res (Some j) = Some (Some (Fin p)))"
    and tot: "(\<forall>m \<in> {1 .. int (length mp)}. motor_covered h m) \<Longrightarrow>
       (\<exists>res. motor_to_joint_pos h mp = Inr res)"
    by blast
  have "length mp = length (get_motor_pos t)"
    using mp by (simp add: joint_to_motor_pos_def j2m_length)
  with cov tot obtain res where res: "motor_to_joint_pos h mp = Inr res" by auto
  from vals[OF res] mp res show ?thesis by blast
qed

text \<open>The thumb of \<open>hand2\<close> at half its ROM goes to motor position 0 and comes back.\<close>

theorem C1_witness:
  "joint_to_motor_pos hand2 [(''thumb'', 785 / 1000)] transport2 = Inr [0, 4 / 10] \<and>
   motor_to_joint_pos hand2 [0, 4 / 10] =
     Inr [(Some ''thumb'', Some (Fin (785 / 1000))), (Some ''index'', None)] \<and>
   map_of [(Some ''thumb'', Some (Fin (785 / 1000))), (Some ''index'', None)] (Some ''thumb'') =
     Some (Some (Fin (785 / 1000)))"
proof -
  have a: "joint_to_motor_pos hand2 [(''thumb'', 785 / 1000)] transport2 = Inr [0, 4 / 10]"
    by (simp add: joint_to_motor_pos_def hand2_simps)
  have b: "motor_to_joint_pos hand2 [0, 4 / 10] =
     Inr [(Some ''thumb'', Some (Fin (785 / 1000))), (Some ''index'', None)]"
    by (simp add: motor_to_joint_pos_def motor_to_joint_entry_def hand2_simps)
  have cov: "\<forall>m \<in> {1 .. int (length (get_motor_pos transport2))}. motor_covered hand2 m"
  proof
    fix m :: int assume "m \<in> {1 .. int (length (get_motor_pos transport2))}"
    then have "m = 1 \<or> m = 2" by (auto simp: hand2_simps)
    then show "motor_covered hand2 m"
      by (auto simp: motor_covered_def hand2_simps)
  qed
  have "\<exists>motor_pos res.
    joint_to_motor_pos hand2 [(''thumb'', 785 / 1000)] transport2 = Inr motor_pos \<and>
    motor_to_joint_pos hand2 motor_pos = Inr res \<and>
    (\<forall>(j, p) \<in> set [(''thumb'', 785 / 1000)]. map_of res (Some j) = Some (Some (Fin p)))"
    by (rule C1_round_trip[OF _ _ _ _ cov]) (simp_all add: calibrated_joint_def hand2_simps)
  with a b show ?thesis by auto
qed

text \<open>
  The claim as stated fails in two ways. Where the two limits of a motor coincide, both
  bounds are defined and the ratio is consistent with them, but it is zero, and the joint
  value 0.5 comes back as a non-finite number. And where the limit table lacks a motor
  that the mapping does not mention, the conversion back raises \<open>KeyError\<close> for it.
\<close>

theorem C1_counterexample:
  "map_of (motor_limits hand_degenerate) 1 = Some (Some 1, Some 1) \<and>
   map_of (joint_roms hand_degenerate) ''thumb'' = Some (0, 157 / 100) \<and>
   map_of (joint_to_motor_ratios hand_degenerate) 1 = Some ((1 - 1) / (157 / 100 - 0)) \<and>
   joint_to_motor_pos hand_degenerate [(''thumb'', 1 / 2)] transport2 = Inr [1, 4 / 10] \<and>
   motor_to_joint_pos hand_degenerate [1, 4 / 10] =
     Inr [(Some ''thumb'', Some NonFinite), (Some ''index'', None)] \<and>
   map_of (motor_limits hand2_one_limit) 1 = Some (Some (- 1), Some 1) \<and>
   map_of (joint_to_motor_ratios hand2_one_limit) 1 = Some ((1 - (- 1)) / (157 / 100 - 0)) \<and>
   joint_to_motor_pos hand2_one_limit [(''thumb'', 785 / 1000)] transport2 = Inr [0, 4 / 10] \<and>
   motor_to_joint_pos hand2_one_limit [0, 4 / 10] = Inl (KeyErrorMotor 2)"
  by (simp add: hand_degenerate_def hand2_one_limit_def joint_to_motor_pos_def
        motor_to_joint_pos_def motor_to_joint_entry_def hand2_simps)

subsection \<open>Ratios and the joint-to-motor formula\<close>

lemma ratio_loop_Cons_Inr:
  assumes "ratio_loop h ((m, (lo, hi)) # rest) (ratios, cj) = Inr out"
  obtains (skip) "lo = None \<or> hi = None" "ratio_loop h rest (ratios, cj) = Inr out"
  | (store) l u joint rom0 rom1 where
      "lo = Some l" "hi = Some u"
      "motor_to_joint_map h m = Some joint"
      "map_of (joint_roms h) joint = Some (rom0, rom1)" "rom1 - rom0 \<noteq> 0"
      "ratio_loop h rest (AList.update m ((u - l) / (rom1 - rom0)) ratios,
                          AList.update joint 0 cj) = Inr out"
  using assms by (auto simp: Let_def split: option.splits if_splits)

lemma ratio_loop_keep:
  "ratio_loop h limits (ratios, cj) = Inr (ratios', cj') \<Longrightarrow> m \<notin> fst ` set limits \<Longrightarrow>
   map_of ratios' m = map_of ratios m"
proof (induction limits arbitrary: ratios cj)
  case Nil
  then show ?case by simp
next
  case (Cons a limits)
  obtain m0 lo hi where a: "a = (m0, (lo, hi))" by (cases a) auto
  have ne: "m0 \<noteq> m" and ni: "m \<notin> fst ` set limits" using Cons.prems(2) a by auto
  from Cons.prems(1)[unfolded a] show ?case
  proof (cases rule: ratio_loop_Cons_Inr)
    case skip
    then show ?thesis using Cons.IH ni by blast
  next
    case (store l u joint rom0 rom1)
    from Cons.IH[OF store(6) ni] ne show ?thesis by (simp add: update_conv')
  qed
qed

lemma ratio_loop_value:
  assumes "ratio_loop h limits (ratios, cj) = Inr (ratios', cj')"
    and "distinct (map fst limits)"
    and "map_of limits m = Some (Some lo, Some hi)"
  shows "\<exists>joint rom0 rom1. motor_to_joint_map h m = Some joint \<and>
           map_of (joint_roms h) joint = Some (rom0, rom1) \<and> rom1 - rom0 \<noteq> 0 \<and>
           map_of ratios' m = Some ((hi - lo) / (rom1 - rom0))"
  using assms
proof (induction limits arbitrary: ratios cj)
  case Nil
  then show ?case by simp
next
  case (Cons a limits)
  obtain m0 lo0 hi0 where a: "a = (m0, (lo0, hi0))" by (cases a) auto
  have d: "distinct (map fst limits)" and ni: "m0 \<notin> fst ` set limits"
    using Cons.prems(2) a by auto
  show ?case
  proof (cases "m0 = m")
    case True
    then have b: "lo0 = Some lo" "hi0 = Some hi" using Cons.prems(3) a by auto
    from Cons.prems(1)[unfolded a] show ?thesis
    proof (cases rule: ratio_loop_Cons_Inr)
      case skip
      then show ?thesis using b by simp
    next
      case (store l u joint rom0 rom1)
      from ratio_loop_keep[OF store(6)] ni True
      have "map_of ratios' m = Some ((u - l) / (rom1 - rom0))"
        by (simp add: update_conv')
      then show ?thesis using store(1-5) b True by auto
    qed
  next
    case False
    then have l: "map_of limits m = Some (Some lo, Some hi)" using Cons.prems(3) a by simp
    from Cons.prems(1)[unfolded a] show ?thesis
    proof (cases rule: ratio_loop_Cons_Inr)
      case skip
      from Cons.IH[OF skip(2) d l] show ?thesis .
    next
      case (store l' u joint rom0 rom1)
      from Cons.IH[OF store(6) d l] show ?thesis .
    qed
  qed
qed

lemma j2m_mentioned_slot:
  "j2m_loop h jp live = Inr mp \<Longrightarrow> j \<in> fst ` set jp \<Longrightarrow>
   map_of (joint_to_motor_map h) j = Some m \<Longrightarrow>
   \<exists>k. np_slot (length live) (m - 1) = Some k"
proof (induction jp arbitrary: live)
  case Nil
  then show ?case by simp
next
  case (Cons a jp)
  obtain j0 p0 where a: "a = (j0, p0)" by (cases a)
  from Cons.prems(1)[unfolded a] show ?case
  proof (cases rule: j2m_Cons_Inr)
    case skip
    then have "j \<in> fst ` set jp" using Cons.prems(2,3) a by auto
    from Cons.IH[OF skip(2) this Cons.prems(3)] show ?thesis .
  next
    case (store m0 lo hi rom_min rom_max ratio live')
    have len: "length live' = length live" using store(5) by (rule np_set_length)
    show ?thesis
    proof (cases "j0 = j")
      case True
      then have "m0 = m" using store(1) Cons.prems(3) by simp
      then show ?thesis using store(5) by (auto simp: np_set_def split: option.splits)
    next
      case False
      then have "j \<in> fst ` set jp" using Cons.prems(2) a by auto
      from Cons.IH[OF store(6) this Cons.prems(3)] len show ?thesis by simp
    qed
  qed
qed

text \<open>
  Claim C2. Let the ratio table be the one the ratio loop of \<open>calibrate\<close> computes from
  the limit table. For a mentioned joint whose motor has both limits defined, the ratio is
  \<open>(motor_limit_max - motor_limit_min) / (rom_max - rom_min)\<close> and the vector that
  \<open>_joint_to_motor_pos\<close> returns holds
  \<open>motor_limit_min + (joint_pos - rom_min) * ratio\<close> in the slot of that motor, provided
  no other mentioned joint drives the same motor.
\<close>

theorem C2_joint_to_motor_formula:
  assumes ratios: "ratio_loop h (motor_limits h) (ratios0, cj0) = Inr (ratios, cj)"
    and stored: "joint_to_motor_ratios h = ratios"
    and lim_keys: "distinct (map fst (motor_limits h))"
    and jp_keys: "distinct (map fst joint_pos)"
    and conv: "joint_to_motor_pos h joint_pos t = Inr motor_pos"
    and jp: "(joint_name, pos) \<in> set joint_pos"
    and m: "map_of (joint_to_motor_map h) joint_name = Some motor_id"
    and inv: "motor_to_joint_map h motor_id = Some joint_name"
    and others: "\<forall>j' \<in> fst ` set joint_pos. j' \<noteq> joint_name \<longrightarrow>
           (\<forall>m'. map_of (joint_to_motor_map h) j' = Some m' \<longrightarrow> 1 \<le> m' \<and> m' \<noteq> motor_id)"
    and range: "1 \<le> motor_id"
    and lim: "map_of (motor_limits h) motor_id = Some (Some motor_limit_min, Some motor_limit_max)"
    and rom: "map_of (joint_roms h) joint_name = Some (rom_min, rom_max)"
  shows "map_of (joint_to_motor_ratios h) motor_id =
           Some ((motor_limit_max - motor_limit_min) / (rom_max - rom_min)) \<and>
         motor_id \<le> int (length motor_pos) \<and>
         motor_pos ! nat (motor_id - 1) =
           motor_limit_min + (pos - rom_min) *
             ((motor_limit_max - motor_limit_min) / (rom_max - rom_min))"
proof -
  let ?live = "get_motor_pos t"
  have loop: "j2m_loop h joint_pos ?live = Inr motor_pos"
    using conv by (simp add: joint_to_motor_pos_def)
  have len: "length motor_pos = length ?live" using loop by (rule j2m_length)
  from ratio_loop_value[OF ratios lim_keys lim] inv rom stored
  have r: "map_of (joint_to_motor_ratios h) motor_id =
           Some ((motor_limit_max - motor_limit_min) / (rom_max - rom_min))"
    by auto
  from jp have "joint_name \<in> fst ` set joint_pos" by force
  from j2m_mentioned_slot[OF loop this m] obtain k where
    k: "np_slot (length ?live) (motor_id - 1) = Some k" by blast
  have mk: "motor_id = int k + 1" using range k by (rule np_slot_pos_eq)
  have kn: "k < length ?live" using k by (rule np_slot_less)
  have oth: "\<forall>j' \<in> fst ` set joint_pos. j' \<noteq> joint_name \<longrightarrow>
           (\<forall>m'. map_of (joint_to_motor_map h) j' = Some m' \<longrightarrow>
              np_slot (length ?live) (m' - 1) \<noteq> Some k)"
  proof (intro ballI allI impI notI)
    fix j' m'
    assume "j' \<in> fst ` set joint_pos" "j' \<noteq> joint_name"
      and m': "map_of (joint_to_motor_map h) j' = Some m'"
      and s: "np_slot (length ?live) (m' - 1) = Some k"
    with others have "1 \<le> m'" "m' \<noteq> motor_id" by blast+
    from np_slot_pos_eq[OF this(1) s] mk this(2) show False by simp
  qed
  from j2m_value[OF loop jp_keys jp m k oth] lim rom r
  have "motor_pos ! k = motor_limit_min + (pos - rom_min) *
             ((motor_limit_max - motor_limit_min) / (rom_max - rom_min))"
    by auto
  moreover have "nat (motor_id - 1) = k" using mk by simp
  moreover have "motor_id \<le> int (length motor_pos)" using mk kn len by simp
  ultimately show ?thesis using r by simp
qed

text \<open>
  The scenario of the claim: limits \<open>[-1.0, 1.0]\<close> and ROM \<open>[0.0, 1.57]\<close> give the
  ratio \<open>2.0 / 1.57\<close>, within a thousandth of 1.274, and joint position 0.785 maps to
  motor position 0.
\<close>

theorem C2_witness:
  "ratio_loop hand2 (motor_limits hand2) ([], []) = Inr ([(1, 200 / 157)], [(''thumb'', 0)]) \<and>
   \<bar>200 / 157 - 1274 / 1000\<bar> < (1 / 1000 :: real) \<and>
   joint_to_motor_pos hand2 [(''thumb'', 785 / 1000)] transport2 = Inr [0, 4 / 10] \<and>
   [0, 4 / 10 :: real] ! nat (1 - 1) = - 1 + (785 / 1000 - 0) * ((1 - (- 1)) / (157 / 100 - 0))"
proof -
  have a: "ratio_loop hand2 (motor_limits hand2) ([], []) =
             Inr ([(1, 200 / 157)], [(''thumb'', 0)])"
    by (simp add: hand2_simps)
  have b: "joint_to_motor_pos hand2 [(''thumb'', 785 / 1000)] transport2 = Inr [0, 4 / 10]"
    by (simp add: joint_to_motor_pos_def hand2_simps)
  have "map_of (joint_to_motor_ratios hand2) 1 = Some ((1 - (- 1)) / (157 / 100 - 0)) \<and>
        1 \<le> int (length [0, 4 / 10 :: real]) \<and>
        [0, 4 / 10 :: real] ! nat (1 - 1) =
          - 1 + (785 / 1000 - 0) * ((1 - (- 1)) / (157 / 100 - 0))"
    by (rule C2_joint_to_motor_formula[OF a _ _ _ b])
       (simp_all add: hand2_simps)
  with a b show ?thesis by simp
qed

subsection \<open>Calibration status and the configuration check\<close>

lemma is_calibrated_loop_iff:
  "is_calibrated_loop ls \<longleftrightarrow> (\<forall>l \<in> set ls. \<not> any_limit_none l)"
  by (induction ls) auto

lemma clear_calibrated_complete:
  "\<forall>l \<in> set ls. \<not> any_limit_none l \<Longrightarrow> clear_calibrated ls (h, f) = (h, f)"
  by (induction ls) auto

lemma clear_calibrated_cleared:
  "clear_calibrated ls (h\<lparr>calibrated := False\<rparr>, update_yaml f ''calibrated'' (YBool False)) =
     (h\<lparr>calibrated := False\<rparr>, update_yaml f ''calibrated'' (YBool False))"
  by (induction ls) (auto simp: update_yaml_def)

lemma clear_calibrated_incomplete:
  "\<exists>l \<in> set ls. any_limit_none l \<Longrightarrow>
   clear_calibrated ls (h, f) =
     (h\<lparr>calibrated := False\<rparr>, update_yaml f ''calibrated'' (YBool False))"
proof (induction ls)
  case Nil
  then show ?case by simp
next
  case (Cons l ls)
  show ?case
  proof (cases "any_limit_none l")
    case True
    then show ?thesis by (simp add: clear_calibrated_cleared)
  next
    case False
    with Cons show ?thesis by simp
  qed
qed

lemma sanity_check_InrD:
  assumes "sanity_check h f = Inr r"
  shows "length (motor_ids h) = length (joint_ids h)"
    and "length (motor_ids h) = length (joint_to_motor_map h)"
    and "check_map_items h (joint_to_motor_map h) = None"
    and "r = clear_calibrated (map snd (motor_limits h)) (h, f)"
  using assms by (auto simp: sanity_check_def split: if_splits option.splits)

text \<open>
  What \<open>is_calibrated\<close> and the last loop of \<open>_sanity_check\<close> compute. \<open>is_calibrated\<close>
  is true exactly when every limit pair of the limit table has both bounds defined; it
  does not read the \<open>calibrated\<close> flag. Where the table has exactly one pair per declared
  motor id, as \<open>calibrate\<close> builds it, that is: every declared motor has both bounds
  defined. When \<open>_sanity_check\<close> returns, a table with an incomplete pair has forced the
  flag to false and written \<open>calibrated: False\<close> to the calibration file; a table without
  one leaves the hand and the file as they were.
\<close>

lemma is_calibrated_table:
  "(is_calibrated h \<longleftrightarrow>
      (\<forall>(motor_id, lo, hi) \<in> set (motor_limits h). lo \<noteq> None \<and> hi \<noteq> None)) \<and>
   is_calibrated (h\<lparr>calibrated := flag\<rparr>) = is_calibrated h \<and>
   (distinct (map fst (motor_limits h)) \<and> fst ` set (motor_limits h) = set (motor_ids h) \<longrightarrow>
      (is_calibrated h \<longleftrightarrow>
         (\<forall>motor_id \<in> set (motor_ids h).
            \<exists>lo hi. map_of (motor_limits h) motor_id = Some (Some lo, Some hi)))) \<and>
   (\<forall>h' f'. sanity_check h f = Inr (h', f') \<longrightarrow>
      (if is_calibrated h then h' = h \<and> f' = f
       else h' = h\<lparr>calibrated := False\<rparr> \<and> calibrated h' = False \<and>
            map_of f' ''calibrated'' = Some (YBool False)))"
proof -
  have a: "is_calibrated h \<longleftrightarrow>
      (\<forall>(motor_id, lo, hi) \<in> set (motor_limits h). lo \<noteq> None \<and> hi \<noteq> None)"
    by (force simp: is_calibrated_def is_calibrated_loop_iff)
  have b: "is_calibrated (h\<lparr>calibrated := flag\<rparr>) = is_calibrated h"
    by (simp add: is_calibrated_def)
  have c: "is_calibrated h \<longleftrightarrow>
         (\<forall>motor_id \<in> set (motor_ids h).
            \<exists>lo hi. map_of (motor_limits h) motor_id = Some (Some lo, Some hi))"
    if d: "distinct (map fst (motor_limits h))"
      and k: "fst ` set (motor_limits h) = set (motor_ids h)"
  proof
    assume cal: "is_calibrated h"
    show "\<forall>motor_id \<in> set (motor_ids h).
            \<exists>lo hi. map_of (motor_limits h) motor_id = Some (Some lo, Some hi)"
    proof
      fix m assume "m \<in> set (motor_ids h)"
      with k obtain lo hi where mem: "(m, lo, hi) \<in> set (motor_limits h)" by force
      with cal a have "lo \<noteq> None" "hi \<noteq> None" by auto
      moreover from mem d have "map_of (motor_limits h) m = Some (lo, hi)" by simp
      ultimately show "\<exists>lo hi. map_of (motor_limits h) m = Some (Some lo, Some hi)" by auto
    qed
  next
    assume r: "\<forall>motor_id \<in> set (motor_ids h).
            \<exists>lo hi. map_of (motor_limits h) motor_id = Some (Some lo, Some hi)"
    have "lo \<noteq> None \<and> hi \<noteq> None" if mem: "(m, lo, hi) \<in> set (motor_limits h)" for m lo hi
    proof -
      from mem k have "m \<in> set (motor_ids h)" by force
      with r obtain l u where "map_of (motor_limits h) m = Some (Some l, Some u)" by blast
      moreover from mem d have "map_of (motor_limits h) m = Some (lo, hi)" by simp
      ultimately show ?thesis by simp
    qed
    with a show "is_calibrated h" by auto
  qed
  have s: "if is_calibrated h then h' = h \<and> f' = f
       else h' = h\<lparr>calibrated := False\<rparr> \<and> calibrated h' = False \<and>
            map_of f' ''calibrated'' = Some (YBool False)"
    if "sanity_check h f = Inr (h', f')" for h' f'
  proof -
    from sanity_check_InrD(4)[OF that]
    have r: "(h', f') = clear_calibrated (map snd (motor_limits h)) (h, f)" .
    show ?thesis
    proof (cases "is_calibrated h")
      case True
      then have "\<forall>l \<in> set (map snd (motor_limits h)). \<not> any_limit_none l"
        by (simp add: is_calibrated_def is_calibrated_loop_iff)
      from clear_calibrated_complete[OF this] r True show ?thesis by simp
    next
      case False
      then have "\<exists>l \<in> set (map snd (motor_limits h)). any_limit_none l"
        by (simp add: is_calibrated_def is_calibrated_loop_iff)
      from clear_calibrated_incomplete[OF this] r False show ?thesis
        by (simp add: update_yaml_def update_conv')
    qed
  qed
  from a b c s show ?thesis by blast
qed

text \<open>
  \<open>hand2\<close> is loaded with the flag true and one missing bound: \<open>is_calibrated\<close> is
  false, and the check clears the flag in the hand and in the file.
\<close>

lemma sanity_check_clears_flag:
  "calibrated hand2 \<and> \<not> is_calibrated hand2 \<and>
   sanity_check hand2 [(''calibrated'', YBool True)] =
     Inr (hand2\<lparr>calibrated := False\<rparr>, [(''calibrated'', YBool False)])"
proof -
  have n: "\<not> is_calibrated hand2"
    using is_calibrated_table[of hand2 True "[]"] by (simp add: hand2_def)
  have s: "sanity_check hand2 [(''calibrated'', YBool True)] =
     Inr (hand2\<lparr>calibrated := False\<rparr>, [(''calibrated'', YBool False)])"
    by (simp add: sanity_check_def hand2_def update_yaml_def)
  show ?thesis using n s by (simp add: hand2_def)
qed

text \<open>
  Claim C4. Both loops run over \<open>self.motor_limits.values()\<close>, not over the declared
  motors. With the default empty limit table no motor of \<open>hand_fresh\<close> has a limit bound,
  yet \<open>is_calibrated\<close> is true, and \<open>_sanity_check\<close> leaves the flag true in the hand
  and in the file: the claim fails on the code there.
\<close>

theorem C4_empty_limit_table:
  "motor_ids hand_fresh = [1, 2] \<and> motor_limits hand_fresh = [] \<and>
   map_of (motor_limits hand_fresh) 1 = None \<and> calibrated hand_fresh \<and>
   is_calibrated hand_fresh \<and>
   sanity_check hand_fresh [(''calibrated'', YBool True)] =
     Inr (hand_fresh, [(''calibrated'', YBool True)])"
  by (simp add: hand_fresh_def hand2_def is_calibrated_def sanity_check_def)

lemma check_map_items_NoneD:
  "check_map_items h items = None \<Longrightarrow> (j, m) \<in> set items \<Longrightarrow>
   j \<in> set (joint_ids h) \<and> map_of (joint_roms h) j \<noteq> None \<and> m \<in> set (motor_ids h)"
  by (induction h items rule: check_map_items.induct) (auto split: if_splits)

lemma sanity_check_raises_unconditionally:
  "length (motor_ids h) \<noteq> length (joint_ids h) \<or>
   length (motor_ids h) \<noteq> length (joint_to_motor_map h) \<or>
   (\<exists>(j, m) \<in> set (joint_to_motor_map h).
      j \<notin> set (joint_ids h) \<or> map_of (joint_roms h) j = None \<or> m \<notin> set (motor_ids h)) \<longrightarrow>
   (\<exists>e. sanity_check h f = Inl e)"
proof (cases "sanity_check h f")
  case (Inl e)
  then show ?thesis by blast
next
  case (Inr r)
  note s = sanity_check_InrD[OF Inr]
  from check_map_items_NoneD[OF s(3)] s(1,2) show ?thesis by fastforce
qed

lemma sanity_check_onto_sets:
  assumes ok: "sanity_check h f = Inr r"
    and keys: "distinct (map fst (joint_to_motor_map h))"
    and inj: "distinct (map snd (joint_to_motor_map h))"
  shows "fst ` set (joint_to_motor_map h) = set (joint_ids h)"
    and "snd ` set (joint_to_motor_map h) = set (motor_ids h)"
proof -
  let ?jm = "joint_to_motor_map h"
  note s = sanity_check_InrD[OF ok]
  have sub: "fst ` set ?jm \<subseteq> set (joint_ids h)" "snd ` set ?jm \<subseteq> set (motor_ids h)"
    using check_map_items_NoneD[OF s(3)] by auto
  have "card (set (joint_ids h)) \<le> length (joint_ids h)" by (rule card_length)
  also have "\<dots> = card (fst ` set ?jm)" using distinct_card[OF keys] s(1,2) by simp
  finally show "fst ` set ?jm = set (joint_ids h)"
    using sub(1) by (intro card_seteq) simp_all
  have "card (set (motor_ids h)) \<le> length (motor_ids h)" by (rule card_length)
  also have "\<dots> = card (snd ` set ?jm)" using distinct_card[OF inj] s(2) by simp
  finally show "snd ` set ?jm = set (motor_ids h)"
    using sub(2) by (intro card_seteq) simp_all
qed

text \<open>
  Claim C9, as amended. \<open>_sanity_check\<close> raises whenever the number of motor ids differs
  from the number of joint ids or from the number of entries of the joint-to-motor map, or
  an entry names a joint that is not declared or has no ROM, or a motor id that is not
  declared. Hence it raises for every one-to-one map whose joints are not exactly the
  declared joints or whose motor ids are not exactly the declared motor ids. The check
  compares counts and tests membership; it does not test that the map is one-to-one.
\<close>

theorem C9_sanity_check_one_to_one:
  "(length (motor_ids h) \<noteq> length (joint_ids h) \<or>
    length (motor_ids h) \<noteq> length (joint_to_motor_map h) \<or>
    (\<exists>(j, m) \<in> set (joint_to_motor_map h).
       j \<notin> set (joint_ids h) \<or> map_of (joint_roms h) j = None \<or> m \<notin> set (motor_ids h)) \<longrightarrow>
    (\<exists>e. sanity_check h f = Inl e)) \<and>
   (distinct (map fst (joint_to_motor_map h)) \<and> distinct (map snd (joint_to_motor_map h)) \<and>
    (fst ` set (joint_to_motor_map h) \<noteq> set (joint_ids h) \<or>
     snd ` set (joint_to_motor_map h) \<noteq> set (motor_ids h)) \<longrightarrow>
    (\<exists>e. sanity_check h f = Inl e))"
proof (intro conjI sanity_check_raises_unconditionally impI)
  assume a: "distinct (map fst (joint_to_motor_map h)) \<and>
    distinct (map snd (joint_to_motor_map h)) \<and>
    (fst ` set (joint_to_motor_map h) \<noteq> set (joint_ids h) \<or>
     snd ` set (joint_to_motor_map h) \<noteq> set (motor_ids h))"
  show "\<exists>e. sanity_check h f = Inl e"
  proof (cases "sanity_check h f")
    case (Inl e)
    then show ?thesis by blast
  next
    case (Inr r)
    from sanity_check_onto_sets[OF Inr] a show ?thesis by blast
  qed
qed

text \<open>A one-to-one map onto the motor ids 1 and 3, with 1 and 2 declared, is refused.\<close>

theorem C9_witness:
  "distinct (map snd (joint_to_motor_map hand_undeclared_motor)) \<and>
   snd ` set (joint_to_motor_map hand_undeclared_motor) \<noteq> set (motor_ids hand_undeclared_motor) \<and>
   sanity_check hand_undeclared_motor [] = Inl (MotorIdNotInList 3)"
proof -
  have d: "distinct (map fst (joint_to_motor_map hand_undeclared_motor)) \<and>
           distinct (map snd (joint_to_motor_map hand_undeclared_motor))"
    by (simp add: hand_undeclared_motor_def hand2_def)
  have ne: "snd ` set (joint_to_motor_map hand_undeclared_motor) \<noteq>
            set (motor_ids hand_undeclared_motor)"
  proof -
    have "3 \<in> snd ` set (joint_to_motor_map hand_undeclared_motor)"
      by (simp add: hand_undeclared_motor_def hand2_def)
    moreover have "3 \<notin> set (motor_ids hand_undeclared_motor)"
      by (simp add: hand_undeclared_motor_def hand2_def)
    ultimately show ?thesis by metis
  qed
  from C9_sanity_check_one_to_one[of hand_undeclared_motor "[]"] d ne
  have "\<exists>e. sanity_check hand_undeclared_motor [] = Inl e" by blast
  moreover have "sanity_check hand_undeclared_motor [] = Inl (MotorIdNotInList 3)"
    by (simp add: sanity_check_def hand_undeclared_motor_def hand2_def)
  ultimately show ?thesis using d ne by simp
qed

text \<open>
  The claim as stated fails: with both joints on motor 1, two joints share a motor and the
  declared motor 2 is the image of no joint, yet the check returns normally.
\<close>

theorem C9_counterexample:
  "map_of (joint_to_motor_map hand_shared_motor) ''thumb'' = Some 1 \<and>
   map_of (joint_to_motor_map hand_shared_motor) ''index'' = Some 1 \<and>
   2 \<in> set (motor_ids hand_shared_motor) \<and>
   2 \<notin> snd ` set (joint_to_motor_map hand_shared_motor) \<and>
   sanity_check hand_shared_motor [] =
     Inr (hand_shared_motor\<lparr>calibrated := False\<rparr>, [(''calibrated'', YBool False)])"
  by (simp add: sanity_check_def hand_shared_motor_def hand2_def update_yaml_def)

subsection \<open>Limit detection during calibration\<close>

lemma deque_append_nonempty: "0 < n \<Longrightarrow> deque_append n buf x \<noteq> []"
  by (cases buf) (auto simp: deque_append_def Let_def)

lemma limit_reached_iff:
  "limit_reached n thr buf = Inr True \<longleftrightarrow>
     length buf = n \<and> buf \<noteq> [] \<and> (\<forall>y \<in> set buf. \<bar>y - hd buf\<bar> \<le> thr + \<bar>hd buf\<bar> / 100000)"
  by (cases buf)
     (auto simp: limit_reached_def np_allclose_def default_rtol_def list_all_iff)

lemma limit_reached_nonempty:
  "buf \<noteq> [] \<Longrightarrow> \<exists>b. limit_reached n thr buf = Inr b"
  by (cases buf) (auto simp: limit_reached_def)

lemma record_limit_flex:
  "map_of limits m = Some (lo, hi) \<Longrightarrow>
   record_limit m 1 avg limits = Inr (AList.update m (lo, Some avg) limits)"
  by (simp add: record_limit_def)

lemma record_limit_extend:
  "map_of limits m = Some (lo, hi) \<Longrightarrow>
   record_limit m (- 1) avg limits = Inr (AList.update m (Some avg, hi) limits)"
  by (simp add: record_limit_def)

text \<open>
  The step state of the example is the one the loops build: the set-up of the step
  \<open>{thumb: flex}\<close>, the increments, and four samples that fill the buffer.
\<close>

lemma step_thumb_flex_set_up:
  "init_step hand2 [(''thumb'', ''flex'')]
     \<lparr>desired_increment = [], motor_reached_limit = [], directions = [],
      position_buffers = [], new_limits = init_limits (motor_ids hand2)\<rparr> =
     Inr \<lparr>desired_increment = [], motor_reached_limit = [(1, False)], directions = [(1, 1)],
          position_buffers = [(1, [])], new_limits = [(1, (None, None)), (2, (None, None))]\<rparr>"
  "increment_loop hand2 [(1, False)]
     \<lparr>desired_increment = [], motor_reached_limit = [(1, False)], directions = [(1, 1)],
      position_buffers = [(1, [])], new_limits = [(1, (None, None)), (2, (None, None))]\<rparr> =
     Inr (step_thumb_flex [])"
  by (simp_all add: hand2_def init_limits_def step_thumb_flex_def)

lemma step_thumb_flex_samples:
  "sample_loop hand2 [1 / 2, 0] [1] (step_thumb_flex []) = Inr (step_thumb_flex [1 / 2])"
  "sample_loop hand2 [505 / 1000, 0] [1] (step_thumb_flex [1 / 2]) =
     Inr (step_thumb_flex [1 / 2, 505 / 1000])"
  "sample_loop hand2 [498 / 1000, 0] [1] (step_thumb_flex [1 / 2, 505 / 1000]) =
     Inr (step_thumb_flex [1 / 2, 505 / 1000, 498 / 1000])"
  "sample_loop hand2 [502 / 1000, 0] [1] (step_thumb_flex [1 / 2, 505 / 1000, 498 / 1000]) =
     Inr (step_thumb_flex [1 / 2, 505 / 1000, 498 / 1000, 502 / 1000])"
  by (simp_all add: sample_motor_def step_thumb_flex_def hand2_simps deque_append_def
        limit_reached_def Let_def)

text \<open>
  Claim C5, as amended. Sampling a motor that has not reached its limit appends the
  sample to its stability buffer. The motor is judged at its limit exactly when the buffer
  then holds \<open>calib_num_stable\<close> samples and every sample lies within
  \<open>calib_threshold + 1e-05 * |first|\<close> of the first one: \<open>np.allclose\<close> adds its
  default relative tolerance to the absolute one. The bound recorded is the mean of the
  buffer, as the upper limit when the step direction is \<open>flex\<close> and as the lower limit
  otherwise.
\<close>

theorem C5_limit_detection:
  assumes reached: "map_of (motor_reached_limit st) motor_id = Some False"
    and buffer: "map_of (position_buffers st) motor_id = Some buf"
    and dir: "map_of (directions st) motor_id = Some (if direction = ''flex'' then 1 else - 1)"
    and lim: "map_of (new_limits st) motor_id = Some (lo, hi)"
    and joint: "motor_to_joint_map h motor_id = Some joint"
    and sample: "np_get curr_pos (motor_id - 1) = Inr x"
    and n: "0 < calib_num_stable h"
    and buf': "buf' = deque_append (calib_num_stable h) buf x"
  shows "\<exists>st'. sample_motor h curr_pos motor_id st = Inr st' \<and>
     map_of (position_buffers st') motor_id = Some buf' \<and>
     (if length buf' = calib_num_stable h \<and>
         (\<forall>y \<in> set buf'. \<bar>y - hd buf'\<bar> \<le> calib_threshold h + \<bar>hd buf'\<bar> / 100000)
      then map_of (motor_reached_limit st') motor_id = Some True \<and>
           map_of (new_limits st') motor_id =
             Some (if direction = ''flex'' then (lo, Some (np_mean buf'))
                   else (Some (np_mean buf'), hi))
      else map_of (motor_reached_limit st') motor_id = Some False \<and>
           new_limits st' = new_limits st)"
proof -
  let ?N = "calib_num_stable h" and ?thr = "calib_threshold h"
  let ?st1 = "st\<lparr>position_buffers := AList.update motor_id buf' (position_buffers st)\<rparr>"
  have ne: "buf' \<noteq> []" using n buf' by (simp add: deque_append_nonempty)
  from limit_reached_nonempty[OF ne] obtain b where b: "limit_reached ?N ?thr buf' = Inr b"
    by blast
  show ?thesis
  proof (cases b)
    case True
    with b have cond: "length buf' = ?N \<and>
         (\<forall>y \<in> set buf'. \<bar>y - hd buf'\<bar> \<le> ?thr + \<bar>hd buf'\<bar> / 100000)"
      by (simp add: limit_reached_iff)
    let ?lim' = "AList.update motor_id
        (if direction = ''flex'' then (lo, Some (np_mean buf')) else (Some (np_mean buf'), hi))
        (new_limits st)"
    have rl: "record_limit motor_id (if direction = ''flex'' then 1 else - 1) (np_mean buf')
                (new_limits st) = Inr ?lim'"
      using lim by (simp add: record_limit_flex record_limit_extend)
    let ?st' = "?st1\<lparr>motor_reached_limit := AList.update motor_id True (motor_reached_limit st),
                      new_limits := ?lim'\<rparr>"
    have "sample_motor h curr_pos motor_id st = Inr ?st'"
      using reached buffer sample b True joint dir rl buf'
      by (simp add: sample_motor_def Let_def)
    moreover have "map_of (position_buffers ?st') motor_id = Some buf'"
      by (simp add: update_conv')
    moreover have "map_of (motor_reached_limit ?st') motor_id = Some True"
      by (simp add: update_conv')
    moreover have "map_of (new_limits ?st') motor_id =
             Some (if direction = ''flex'' then (lo, Some (np_mean buf'))
                   else (Some (np_mean buf'), hi))"
      by (simp add: update_conv')
    ultimately show ?thesis using cond by (intro exI[of _ ?st']) simp
  next
    case False
    with b have cond: "\<not> (length buf' = ?N \<and>
         (\<forall>y \<in> set buf'. \<bar>y - hd buf'\<bar> \<le> ?thr + \<bar>hd buf'\<bar> / 100000))"
      using limit_reached_iff[of ?N ?thr buf'] ne by auto
    have "sample_motor h curr_pos motor_id st = Inr ?st1"
      using reached buffer sample b False buf'
      by (simp add: sample_motor_def Let_def)
    moreover have "map_of (position_buffers ?st1) motor_id = Some buf'"
      by (simp add: update_conv')
    moreover have "map_of (motor_reached_limit ?st1) motor_id = Some False"
      using reached by simp
    ultimately show ?thesis using cond by (intro exI[of _ ?st1]) simp
  qed
qed

text \<open>
  The scenario of the claim: buffer size 5, threshold 0.01, samples
  \<open>[0.50, 0.505, 0.498, 0.502, 0.499]\<close>. The fifth sample makes the thumb stable and
  the upper limit recorded is the mean, 0.5008.
\<close>

theorem C5_witness:
  "sample_motor hand2 [499 / 1000, 0] 1
      (step_thumb_flex [1 / 2, 505 / 1000, 498 / 1000, 502 / 1000]) =
     Inr \<lparr>desired_increment = [(1, 1 / 10)], motor_reached_limit = [(1, True)],
          directions = [(1, 1)],
          position_buffers = [(1, [1 / 2, 505 / 1000, 498 / 1000, 502 / 1000, 499 / 1000])],
          new_limits = [(1, (None, Some (313 / 625))), (2, (None, None))]\<rparr> \<and>
   np_mean [1 / 2, 505 / 1000, 498 / 1000, 502 / 1000, 499 / 1000] = 5008 / 10000"
proof -
  let ?st = "step_thumb_flex [1 / 2, 505 / 1000, 498 / 1000, 502 / 1000]"
  let ?buf' = "[1 / 2, 505 / 1000, 498 / 1000, 502 / 1000, 499 / 1000 :: real]"
  have run: "sample_motor hand2 [499 / 1000, 0] 1 ?st =
     Inr \<lparr>desired_increment = [(1, 1 / 10)], motor_reached_limit = [(1, True)],
          directions = [(1, 1)], position_buffers = [(1, ?buf')],
          new_limits = [(1, (None, Some (313 / 625))), (2, (None, None))]\<rparr>"
    by (simp add: sample_motor_def step_thumb_flex_def hand2_simps deque_append_def
        limit_reached_def np_allclose_def default_rtol_def np_mean_def record_limit_def Let_def)
  have "\<exists>st'. sample_motor hand2 [499 / 1000, 0] 1 ?st = Inr st' \<and>
     map_of (position_buffers st') 1 = Some ?buf' \<and>
     (if length ?buf' = calib_num_stable hand2 \<and>
         (\<forall>y \<in> set ?buf'. \<bar>y - hd ?buf'\<bar> \<le> calib_threshold hand2 + \<bar>hd ?buf'\<bar> / 100000)
      then map_of (motor_reached_limit st') 1 = Some True \<and>
           map_of (new_limits st') 1 =
             Some (if ''flex'' = ''flex'' then (None, Some (np_mean ?buf'))
                   else (Some (np_mean ?buf'), None))
      else map_of (motor_reached_limit st') 1 = Some False \<and>
           new_limits st' = new_limits ?st)"
    by (rule C5_limit_detection[where buf = "[1 / 2, 505 / 1000, 498 / 1000, 502 / 1000]"
          and x = "499 / 1000" and joint = "''thumb''"])
       (simp_all add: step_thumb_flex_def hand2_simps deque_append_def)
  then have "map_of [(1::int, (None, Some (313 / 625 :: real))), (2, (None, None))] 1 =
      Some (None, Some (np_mean ?buf'))"
    unfolding run by (simp add: hand2_def)
  then have "np_mean ?buf' = 5008 / 10000" by simp
  with run show ?thesis by simp
qed

text \<open>
  The claim as stated fails: with threshold 0.01 the buffer
  \<open>[10, 10.01005, 10, 10, 10]\<close> is judged stable, although its second sample is
  farther than 0.01 from the first.
\<close>

theorem C5_counterexample:
  "sample_motor hand2 [10, 0] 1 (step_thumb_flex [10, 1001005 / 100000, 10, 10]) =
     Inr \<lparr>desired_increment = [(1, 1 / 10)], motor_reached_limit = [(1, True)],
          directions = [(1, 1)],
          position_buffers = [(1, [10, 1001005 / 100000, 10, 10, 10])],
          new_limits = [(1, (None, Some (1000201 / 100000))), (2, (None, None))]\<rparr> \<and>
   \<not> \<bar>1001005 / 100000 - 10\<bar> \<le> calib_threshold hand2"
  by (simp add: sample_motor_def step_thumb_flex_def hand2_simps deque_append_def
        limit_reached_def np_allclose_def default_rtol_def np_mean_def record_limit_def Let_def)

subsection \<open>Slots and motor ids\<close>




lemma rel_dict_targets:
  "dict_targets d True cur ids =
     Inr (map (\<lambda>m. case map_of d m of None \<Rightarrow> 0 | Some v \<Rightarrow> v) ids)"
  by (induction ids) auto












text \<open>
  A relative move in which no declared motor gets an increment raises: the array of
  defaults is an integer array.
\<close>

lemma int_array_raises:
  "set_motor_pos hand2 (DDict []) True transport2 = (Some UFuncTypeError, transport2)"
  by (simp add: set_motor_pos_def rel_dict_targets int_array_def hand2_simps)

text \<open>
  Without the precondition: with the ids declared as \<open>[2, 1]\<close> an empty dict commands
  each motor to the other's position, and with \<open>[1, 3]\<close> the read for motor 3 is out of
  bounds.
\<close>

lemma swapped_ids_move_motors:
  "set_motor_pos (hand2\<lparr>motor_ids := [2, 1]\<rparr>) (DDict []) False transport2 =
     (None, write_desired_pos transport2 [2, 1] [4 / 10, 3 / 10])"
  by (simp add: set_motor_pos_def hand2_simps)

lemma sparse_ids_out_of_bounds:
  "set_motor_pos (hand2\<lparr>motor_ids := [1, 3]\<rparr>) (DDict []) False transport2 =
     (Some IndexError, transport2)"
  by (simp add: set_motor_pos_def hand2_simps)

end
